theory Spec2Isabelle
  imports Main "HOL-Library.AList"
begin

section \<open>Data model\<close>

text \<open>
  The program reads its rules and its records with \<^verbatim>\<open>json.load\<close>, so every value it
  is given is a JSON value: \<^verbatim>\<open>None\<close>, a boolean, a number, a string, a list or a
  dictionary with string keys. Numbers are the integers; floating-point numbers are not
  modelled. A dictionary is an association list in insertion order, as Python keeps it.
\<close>

datatype json =
    JNull
  | JBool bool
  | JInt int
  | JStr string
  | JList "json list"
  | JObj "(string \<times> json) list"

text \<open>
  Once loaded, a list or a dictionary is an object: it has an identity, it can be changed
  in place, and any number of dictionaries, lists and names can refer to it. A value in
  memory is so \<^verbatim>\<open>None\<close>, a boolean, an integer, a string, or the address of a list
  object or of a dictionary object.
\<close>

type_synonym addr = nat

datatype val =
    VNull
  | VBool bool
  | VInt int
  | VStr string
  | VList addr
  | VDict addr

text \<open>
  The content of a dictionary object, a record of the data file among them: its keys and
  the values under them.
\<close>

type_synonym data_record = "(string \<times> val) list"

text \<open>\<^verbatim>\<open>key in d\<close> for a dictionary \<open>d\<close> and a string key.\<close>

definition has_key :: "data_record \<Rightarrow> string \<Rightarrow> bool" where
  "has_key d k = (map_of d k \<noteq> None)"

text \<open>
  A rule of the configuration: a dictionary that holds at least the keys
  \<^verbatim>\<open>condition\<close>, \<^verbatim>\<open>field\<close> and \<^verbatim>\<open>masking_type\<close> (\<^verbatim>\<open>load_config\<close> admits no
  other). The condition is what the rule hands to \<^verbatim>\<open>eval\<close>; its type is left open. The
  other two are whatever JSON values the file holds: \<^verbatim>\<open>load_config\<close> checks that the
  keys are there, not what they map to. The program only compares them and looks them up.
\<close>

record 'c rule =
  condition :: 'c
  field :: json
  masking_type :: json

text \<open>
  The exceptions. \<^verbatim>\<open>SystemExit\<close>, as \<^verbatim>\<open>exit()\<close> raises it, derives from
  \<^verbatim>\<open>BaseException\<close> only, so a handler for \<^verbatim>\<open>Exception\<close> lets it pass; the others are
  subclasses of \<^verbatim>\<open>Exception\<close>.
\<close>

datatype exn =
    NameError
  | TypeError
  | SyntaxError
  | KeyError
  | AttributeError
  | FileNotFoundError
  | PermissionError
  | JSONDecodeError
  | ValueError string
  | RuntimeError
  | SystemExit

fun is_Exception :: "exn \<Rightarrow> bool" where
  "is_Exception SystemExit = False"
| "is_Exception e = True"

text \<open>What a call comes to: it returns a value or raises.\<close>

datatype 'a result = Returns 'a | Raises exn

text \<open>
  The log: the calls to \<^verbatim>\<open>logging\<close> in the order they are made, each with its level
  and its message as the source writes it (the format string, placeholders left in place).
  \<^verbatim>\<open>logging.exception\<close> logs at level \<open>ERROR\<close>.
\<close>

datatype level = INFO | WARNING | ERROR

type_synonym log_entry = "level \<times> string"

text \<open>
  \<^verbatim>\<open>Faker\<close> is a library outside the repository. Its generator is a parameter: a
  function from the provider method called and the generator's internal state to the
  string it returns (or the exception it raises) and the next internal state. Each call
  may so return a different value.
\<close>

datatype provider =
    P_name
  | P_email
  | P_address
  | P_phone_number
  | P_company
  | P_ssn
  | P_date
  | P_city
  | P_country
  | P_text
  | P_password

type_synonym 'g faker = "provider \<Rightarrow> 'g \<Rightarrow> (exn + string) \<times> 'g"

text \<open>
  The memory of the run. \<open>heap\<close> holds the dictionary objects and \<open>lists\<close> the list
  objects; an object is named by its index there, so that two names of one object are one
  address, and an object reached from two records is shared by them. A list of records is
  a list of addresses of dictionary objects. \<open>gen\<close> is the internal state of the
  \<^verbatim>\<open>Faker\<close> instance and \<open>logs\<close> what has been logged so far. \<open>files\<close> is the file
  system, from path to file: a file cannot be opened (\<open>Unreadable\<close>), or holds text
  that \<^verbatim>\<open>json.load\<close> rejects (\<open>Malformed\<close>), or text that it parses to a value. A path
  with no entry names no file.
\<close>

datatype stored = Unreadable | Malformed | Holds json

record 'g state =
  heap :: "data_record list"
  lists :: "val list list"
  gen :: 'g
  logs :: "log_entry list"
  files :: "(string \<times> stored) list"

definition logging :: "level \<Rightarrow> string \<Rightarrow> 'g state \<Rightarrow> 'g state" where
  "logging lv msg s = s\<lparr>logs := logs s @ [(lv, msg)]\<rparr>"

text \<open>
  \<^verbatim>\<open>eval(source, {}, locals)\<close> is Python's own, and the program hands it whatever string
  the configuration holds. It is a parameter: a function from the condition, the address
  of the dictionary passed as local names, and the memory, to what the call comes to and
  the memory it leaves. Evaluating an expression can so assign to a local name (which
  writes into that dictionary), change any object in place, and raise any exception.
  The memory holds the objects of the data; the interpreter's own frames, through which
  an expression can also reach the list that \<^verbatim>\<open>mask_data\<close> is building, are not part
  of it. The function gives every call a result: an evaluation that does not end is not
  represented either.
\<close>

type_synonym ('c, 'g) evaluator = "'c \<Rightarrow> addr \<Rightarrow> 'g state \<Rightarrow> val result \<times> 'g state"

text \<open>
  The truth value Python's \<^verbatim>\<open>if\<close> gives to a value; a list or a dictionary is true
  when it is not empty.
\<close>

fun truthy :: "'g state \<Rightarrow> val \<Rightarrow> bool" where
  "truthy s VNull = False"
| "truthy s (VBool b) = b"
| "truthy s (VInt n) = (n \<noteq> 0)"
| "truthy s (VStr x) = (x \<noteq> [])"
| "truthy s (VList a) = (lists s ! a \<noteq> [])"
| "truthy s (VDict a) = (heap s ! a \<noteq> [])"

section \<open>The value generator: \<^verbatim>\<open>apply_masking\<close>\<close>

text \<open>
  One call to a provider method inside the \<^verbatim>\<open>try\<close> block of \<^verbatim>\<open>apply_masking\<close>: the
  value is returned, or the exception is logged and \<^verbatim>\<open>'MASKED_ERROR'\<close> returned.
\<close>

definition call_provider :: "'g faker \<Rightarrow> provider \<Rightarrow> 'g state \<Rightarrow> string \<times> 'g state" where
  "call_provider fake p s =
     (case fake p (gen s) of
        (Inr v, g) \<Rightarrow> (v, s\<lparr>gen := g\<rparr>)
      | (Inl e, g) \<Rightarrow> (''MASKED_ERROR'', logging ERROR ''Error applying masking: {e}'' (s\<lparr>gen := g\<rparr>)))"

definition apply_masking :: "'g faker \<Rightarrow> json \<Rightarrow> 'g state \<Rightarrow> string \<times> 'g state" where
  "apply_masking fake mt s =
     (if mt = JStr ''name'' then call_provider fake P_name s
      else if mt = JStr ''email'' then call_provider fake P_email s
      else if mt = JStr ''address'' then call_provider fake P_address s
      else if mt = JStr ''phone_number'' then call_provider fake P_phone_number s
      else if mt = JStr ''company'' then call_provider fake P_company s
      else if mt = JStr ''ssn'' then call_provider fake P_ssn s
      else if mt = JStr ''date'' then call_provider fake P_date s
      else if mt = JStr ''city'' then call_provider fake P_city s
      else if mt = JStr ''country'' then call_provider fake P_country s
      else if mt = JStr ''text'' then call_provider fake P_text s
      else if mt = JStr ''password'' then call_provider fake P_password s
      else (''MASKED'', logging WARNING ''Unknown masking type: {masking_type}.  Returning 'MASKED'.'' s))"

section \<open>The masking engine: \<^verbatim>\<open>mask_data\<close>\<close>

text \<open>
  The body of the inner loop, for one rule and the working copy at address
  \<open>masked_record\<close>. The condition is evaluated with the working copy as local names, and
  whatever the evaluation did to the memory stays done. If the value is true and the
  target field is a key of the working copy, the generated value is stored under that key
  in the object at that address. A target that is a list or a dictionary cannot be looked
  up in a dictionary (\<^verbatim>\<open>TypeError\<close>: unhashable); any other target that is not a string
  is the key of no record. The two handlers catch the subclasses of \<^verbatim>\<open>Exception\<close>, log
  and go on to the next rule; any other exception leaves the loop body, and is the first
  component of the result.
\<close>

definition apply_rule :: "('c, 'g) evaluator \<Rightarrow> 'g faker \<Rightarrow> 'c rule \<Rightarrow> addr \<Rightarrow> 'g state
    \<Rightarrow> exn option \<times> 'g state" where
  "apply_rule ev fake r masked_record s =
     (case ev (condition r) masked_record s of
        (Raises e, s1) \<Rightarrow>
          if e = NameError then
            (None, logging ERROR ''Error in condition evaluation.  Invalid variable used: {e}'' s1)
          else if is_Exception e then
            (None, logging ERROR ''Error evaluating condition or masking: {e}'' s1)
          else (Some e, s1)
      | (Returns v, s1) \<Rightarrow>
          if truthy s1 v then
            (case field r of
               JStr field_to_mask \<Rightarrow>
                 if has_key (heap s1 ! masked_record) field_to_mask then
                   (case apply_masking fake (masking_type r) s1 of
                      (m, s2) \<Rightarrow>
                        (None, s2\<lparr>heap := (heap s2)[masked_record :=
                                  AList.update field_to_mask (VStr m) (heap s2 ! masked_record)]\<rparr>))
                 else
                   (None, logging WARNING ''Field '{field_to_mask}' not found in record. Skipping masking.'' s1)
             | JList xs \<Rightarrow> (None, logging ERROR ''Error evaluating condition or masking: {e}'' s1)
             | JObj kvs \<Rightarrow> (None, logging ERROR ''Error evaluating condition or masking: {e}'' s1)
             | _ \<Rightarrow>
                 (None, logging WARNING ''Field '{field_to_mask}' not found in record. Skipping masking.'' s1))
          else (None, s1))"

text \<open>
  The inner loop: \<^verbatim>\<open>for rule in self.config\<close>. An exception that leaves the body leaves
  the loop.
\<close>

fun apply_rules :: "('c, 'g) evaluator \<Rightarrow> 'g faker \<Rightarrow> 'c rule list \<Rightarrow> addr \<Rightarrow> 'g state
    \<Rightarrow> exn option \<times> 'g state" where
  "apply_rules ev fake [] masked_record s = (None, s)"
| "apply_rules ev fake (r # rs) masked_record s =
     (case apply_rule ev fake r masked_record s of
        (None, s1) \<Rightarrow> apply_rules ev fake rs masked_record s1
      | (Some e, s1) \<Rightarrow> (Some e, s1))"

text \<open>
  \<^verbatim>\<open>record.copy()\<close>: a new dictionary object with the keys and values of the object at
  \<open>a\<close>. The copy is shallow: a value that is the address of a list or of a dictionary is
  copied as that address, so the new object and the old one share the object it names.
  The new object's address is returned with the memory that holds it.
\<close>

definition copy :: "addr \<Rightarrow> 'g state \<Rightarrow> addr \<times> 'g state" where
  "copy a s = (length (heap s), s\<lparr>heap := heap s @ [heap s ! a]\<rparr>)"

text \<open>
  The outer loop: \<^verbatim>\<open>for record in data\<close>, with the list \<open>masked_data\<close> built so far.
  An exception that leaves the inner loop leaves \<^verbatim>\<open>mask_data\<close>, which then returns no
  list.
\<close>

fun mask_loop :: "('c, 'g) evaluator \<Rightarrow> 'g faker \<Rightarrow> 'c rule list \<Rightarrow> addr list \<Rightarrow> addr list \<Rightarrow> 'g state
    \<Rightarrow> addr list result \<times> 'g state" where
  "mask_loop ev fake config [] masked_data s = (Returns masked_data, s)"
| "mask_loop ev fake config (record # rest) masked_data s =
     (case copy record s of
        (masked_record, s1) \<Rightarrow>
          (case apply_rules ev fake config masked_record s1 of
             (None, s2) \<Rightarrow> mask_loop ev fake config rest (masked_data @ [masked_record]) s2
           | (Some e, s2) \<Rightarrow> (Raises e, s2)))"

definition mask_data :: "('c, 'g) evaluator \<Rightarrow> 'g faker \<Rightarrow> 'c rule list \<Rightarrow> addr list \<Rightarrow> 'g state
    \<Rightarrow> addr list result \<times> 'g state" where
  "mask_data ev fake config data s = mask_loop ev fake config data [] s"

section \<open>Loading the rules: \<^verbatim>\<open>load_config\<close>\<close>

text \<open>
  The test of the validation loop on one element of the configuration. An element that
  passes is a dictionary with the three keys, and is read as the rule of their values.
\<close>

definition rule_of_json :: "json \<Rightarrow> json rule option" where
  "rule_of_json j =
     (case j of
        JObj kvs \<Rightarrow>
          (case (map_of kvs ''condition'', map_of kvs ''field'', map_of kvs ''masking_type'') of
             (Some c, Some f, Some m) \<Rightarrow> Some \<lparr>condition = c, field = f, masking_type = m\<rparr>
           | _ \<Rightarrow> None)
      | _ \<Rightarrow> None)"

text \<open>The validation loop: the first element that fails the test raises \<^verbatim>\<open>ValueError\<close>.\<close>

fun check_rules :: "json list \<Rightarrow> exn + json rule list" where
  "check_rules [] = Inr []"
| "check_rules (j # js) =
     (case rule_of_json j of
        None \<Rightarrow>
          Inl (ValueError ''Each rule must be a dictionary with 'condition', 'field', and 'masking_type' keys.'')
      | Some r \<Rightarrow> (case check_rules js of Inl e \<Rightarrow> Inl e | Inr rs \<Rightarrow> Inr (r # rs)))"

text \<open>The \<^verbatim>\<open>try\<close> block of \<^verbatim>\<open>load_config\<close>: open, parse, validate.\<close>

definition read_config :: "string \<Rightarrow> 'g state \<Rightarrow> exn + json rule list" where
  "read_config config_file s =
     (case map_of (files s) config_file of
        None \<Rightarrow> Inl FileNotFoundError
      | Some Unreadable \<Rightarrow> Inl PermissionError
      | Some Malformed \<Rightarrow> Inl JSONDecodeError
      | Some (Holds (JList rules)) \<Rightarrow> check_rules rules
      | Some (Holds _) \<Rightarrow> Inl (ValueError ''Configuration file must contain a list of rules.''))"

text \<open>The handlers of \<^verbatim>\<open>load_config\<close>, in the order of the source; each returns \<^verbatim>\<open>None\<close>.\<close>

definition load_config :: "string \<Rightarrow> 'g state \<Rightarrow> json rule list option \<times> 'g state" where
  "load_config config_file s =
     (case read_config config_file s of
        Inr config \<Rightarrow> (Some config, s)
      | Inl FileNotFoundError \<Rightarrow>
          (None, logging ERROR ''Configuration file not found: {self.config_file}'' s)
      | Inl JSONDecodeError \<Rightarrow>
          (None, logging ERROR ''Invalid JSON in configuration file: {self.config_file}'' s)
      | Inl (ValueError msg) \<Rightarrow> (None, logging ERROR ''Invalid configuration: {e}'' s)
      | Inl e \<Rightarrow> (None, logging ERROR ''Error loading configuration: {e}'' s))"

section \<open>The run: \<^verbatim>\<open>process_data\<close> and \<^verbatim>\<open>main\<close>\<close>

text \<open>
  \<^verbatim>\<open>json.load\<close> on the text of a value: every list and every dictionary of the value
  becomes a new object, the inner ones first.
\<close>

fun alloc :: "json \<Rightarrow> 'g state \<Rightarrow> val \<times> 'g state"
  and alloc_list :: "json list \<Rightarrow> 'g state \<Rightarrow> val list \<times> 'g state"
  and alloc_items :: "(string \<times> json) list \<Rightarrow> 'g state \<Rightarrow> data_record \<times> 'g state" where
  "alloc JNull s = (VNull, s)"
| "alloc (JBool b) s = (VBool b, s)"
| "alloc (JInt n) s = (VInt n, s)"
| "alloc (JStr x) s = (VStr x, s)"
| "alloc (JList xs) s =
     (case alloc_list xs s of (vs, s1) \<Rightarrow> (VList (length (lists s1)), s1\<lparr>lists := lists s1 @ [vs]\<rparr>))"
| "alloc (JObj kvs) s =
     (case alloc_items kvs s of (d, s1) \<Rightarrow> (VDict (length (heap s1)), s1\<lparr>heap := heap s1 @ [d]\<rparr>))"
| "alloc_list [] s = ([], s)"
| "alloc_list (j # js) s =
     (case alloc j s of (v, s1) \<Rightarrow> (case alloc_list js s1 of (vs, s2) \<Rightarrow> (v # vs, s2)))"
| "alloc_items [] s = ([], s)"
| "alloc_items ((k, j) # kvs) s =
     (case alloc j s of (v, s1) \<Rightarrow> (case alloc_items kvs s1 of (d, s2) \<Rightarrow> ((k, v) # d, s2)))"

text \<open>
  The elements of the input array as records: the addresses of dictionary objects. An
  array with an element that is not a dictionary is not a list of records; what the
  program does with one is not modelled.
\<close>

fun addresses :: "val list \<Rightarrow> addr list option" where
  "addresses [] = Some []"
| "addresses (VDict a # vs) = (case addresses vs of None \<Rightarrow> None | Some as \<Rightarrow> Some (a # as))"
| "addresses (v # vs) = None"

text \<open>
  The JSON value that \<^verbatim>\<open>json.dump\<close> writes for a value in memory, going \<open>n\<close> objects
  deep at most: there is none when the value holds an object that holds itself, which
  \<^verbatim>\<open>json.dump\<close> refuses.
\<close>

fun dump :: "nat \<Rightarrow> 'g state \<Rightarrow> val \<Rightarrow> json option" where
  "dump n s VNull = Some JNull"
| "dump n s (VBool b) = Some (JBool b)"
| "dump n s (VInt i) = Some (JInt i)"
| "dump n s (VStr x) = Some (JStr x)"
| "dump 0 s (VList a) = None"
| "dump 0 s (VDict a) = None"
| "dump (Suc n) s (VList a) = map_option JList (those (map (dump n s) (lists s ! a)))"
| "dump (Suc n) s (VDict a) =
     map_option JObj (those (map (\<lambda>(k, v). map_option (Pair k) (dump n s v)) (heap s ! a)))"

text \<open>
  The \<^verbatim>\<open>with\<close> block that writes the output: opening the file for writing empties it,
  and a path that cannot be opened raises; \<^verbatim>\<open>json.dump\<close> then writes the text of the
  list, or raises on a circular reference and leaves the file with no JSON text in it. No
  chain of objects that does not come back to one of its objects is longer than the
  memory has objects.
\<close>

definition write_json :: "string \<Rightarrow> addr list \<Rightarrow> 'g state \<Rightarrow> exn option \<times> 'g state" where
  "write_json path masked_data s =
     (case map_of (files s) path of
        Some Unreadable \<Rightarrow> (Some PermissionError, s)
      | _ \<Rightarrow>
          (case those (map (\<lambda>a. dump (Suc (length (heap s) + length (lists s))) s (VDict a)) masked_data) of
             Some js \<Rightarrow> (None, s\<lparr>files := AList.update path (Holds (JList js)) (files s)\<rparr>)
           | None \<Rightarrow>
               (Some (ValueError ''Circular reference detected''),
                s\<lparr>files := AList.update path Malformed (files s)\<rparr>)))"

text \<open>
  \<^verbatim>\<open>process_data\<close>, with \<^verbatim>\<open>self.config\<close> as \<^verbatim>\<open>__init__\<close> has set it. The result is
  the exception that leaves the function, if any, with the memory then. The result
  \<open>None\<close> stands for an input array outside the model (see \<open>addresses\<close>); every run of the
  program on a list of records is a \<open>Some\<close>.
\<close>

definition process_data :: "(json, 'g) evaluator \<Rightarrow> 'g faker \<Rightarrow> json rule list option \<Rightarrow> string \<Rightarrow> string
    \<Rightarrow> 'g state \<Rightarrow> (exn option \<times> 'g state) option" where
  "process_data ev fake config input_file output_file s =
     (case config of
        None \<Rightarrow> Some (None, logging ERROR ''Configuration loading failed.  Exiting.'' s)
      | Some cfg \<Rightarrow>
          (case map_of (files s) input_file of
             None \<Rightarrow> Some (None, logging ERROR ''Input file not found: {self.input_file}'' s)
           | Some Unreadable \<Rightarrow> Some (None, logging ERROR ''Error processing data: {e}'' s)
           | Some Malformed \<Rightarrow>
               Some (None, logging ERROR ''Invalid JSON in input file: {self.input_file}'' s)
           | Some (Holds (JList xs)) \<Rightarrow>
               (case alloc_list xs s of
                  (rows, s1) \<Rightarrow>
                    (case addresses rows of
                       None \<Rightarrow> None
                     | Some data \<Rightarrow>
                         (case mask_data ev fake cfg data s1 of
                            (Raises e, s2) \<Rightarrow>
                              if e = FileNotFoundError then
                                Some (None, logging ERROR ''Input file not found: {self.input_file}'' s2)
                              else if is_Exception e then
                                Some (None, logging ERROR ''Error processing data: {e}'' s2)
                              else Some (Some e, s2)
                          | (Returns masked_data, s2) \<Rightarrow>
                              (case write_json output_file masked_data s2 of
                                 (Some e, s3) \<Rightarrow>
                                   Some (None, logging ERROR ''Error processing data: {e}'' s3)
                               | (None, s3) \<Rightarrow>
                                   Some (None, logging INFO
                                     ''Data masking complete.  Output written to: {self.output_file}'' s3)))))
           | Some (Holds _) \<Rightarrow>
               Some (None, logging ERROR ''Input file must contain a list of records (JSON array).'' s)))"

text \<open>
  \<^verbatim>\<open>str.lower\<close> and \<^verbatim>\<open>str.endswith\<close> on a path, a string of bytes (UTF-8). Only the
  letters \<open>A\<close> to \<open>Z\<close> are mapped: no character outside ASCII has a lower case with a
  character of \<^verbatim>\<open>.json\<close> in it, so the test of \<^verbatim>\<open>main\<close> comes out the same.
\<close>

definition lower_char :: "char \<Rightarrow> char" where
  "lower_char c =
     (case map_of (zip ''ABCDEFGHIJKLMNOPQRSTUVWXYZ'' ''abcdefghijklmnopqrstuvwxyz'') c of
        Some l \<Rightarrow> l
      | None \<Rightarrow> c)"

definition lower :: "string \<Rightarrow> string" where
  "lower s = map lower_char s"

definition endswith :: "string \<Rightarrow> string \<Rightarrow> bool" where
  "endswith s suffix = (length suffix \<le> length s \<and> drop (length s - length suffix) s = suffix)"

text \<open>
  \<^verbatim>\<open>main\<close> on the three parsed arguments. The result is the exit status of the process
  with the memory it leaves: \<^verbatim>\<open>sys.exit(1)\<close> gives 1, returning from \<^verbatim>\<open>main\<close> gives 0,
  and so does the \<^verbatim>\<open>SystemExit\<close> of an \<^verbatim>\<open>exit()\<close> that nothing catches. The constructor
  of \<^verbatim>\<open>ConditionalMasker\<close> is the call of \<^verbatim>\<open>load_config\<close>.
\<close>

definition main :: "(json, 'g) evaluator \<Rightarrow> 'g faker \<Rightarrow> string \<Rightarrow> string \<Rightarrow> string \<Rightarrow> 'g state
    \<Rightarrow> (nat \<times> 'g state) option" where
  "main ev fake config_file input_file output_file s =
     (if \<not> endswith (lower config_file) ''.json'' then
        Some (1, logging ERROR ''Config file must be a JSON file.'' s)
      else if \<not> endswith (lower input_file) ''.json'' then
        Some (1, logging ERROR ''Input file must be a JSON file.'' s)
      else if \<not> endswith (lower output_file) ''.json'' then
        Some (1, logging ERROR ''Output file must be a JSON file.'' s)
      else
        (case load_config config_file s of
           (config, s1) \<Rightarrow>
             (case process_data ev fake config input_file output_file s1 of
                None \<Rightarrow> None
              | Some (None, s2) \<Rightarrow> Some (0, s2)
              | Some (Some e, s2) \<Rightarrow> Some (if e = SystemExit then 0 else 1, s2))))"

section \<open>A condition language and a scripted generator\<close>

text \<open>
  Some of the expressions that \<^verbatim>\<open>eval\<close> accepts, with Python's evaluation of them:
  a name, a literal, a comparison with a literal, \<^verbatim>\<open>and\<close>, \<^verbatim>\<open>or\<close>, \<^verbatim>\<open>not\<close>, the
  assignment expression \<^verbatim>\<open>(x := e)\<close>, the method call \<^verbatim>\<open>e.clear()\<close> and the call
  \<^verbatim>\<open>exit()\<close>. \<open>Name x\<close> is an identifier other than Python's built-in names (\<^verbatim>\<open>len\<close>,
  \<^verbatim>\<open>id\<close>, ...): it is looked up in the local names and, there being no global ones, is
  undefined when it is not among them.
\<close>

datatype cmpop = Eq | NotEq | Lt | LtE | Gt | GtE

datatype literal = LNone | LBool bool | LInt int | LStr string

datatype expr =
    Name string
  | Constant literal
  | Compare expr cmpop literal
  | BoolAnd expr expr
  | BoolOr expr expr
  | UnaryNot expr
  | NamedExpr string expr
  | Clear expr
  | Exit

fun val_of :: "literal \<Rightarrow> val" where
  "val_of LNone = VNull"
| "val_of (LBool b) = VBool b"
| "val_of (LInt n) = VInt n"
| "val_of (LStr x) = VStr x"

text \<open>A boolean is the integer 0 or 1 in every comparison.\<close>

fun py_num :: "val \<Rightarrow> int option" where
  "py_num (VBool b) = Some (if b then 1 else 0)"
| "py_num (VInt n) = Some n"
| "py_num _ = None"

text \<open>
  \<^verbatim>\<open>==\<close> with a literal on the right: numbers by value, strings by their characters;
  values of different kinds are different, and a list or a dictionary is equal to no
  literal.
\<close>

fun py_eq :: "val \<Rightarrow> literal \<Rightarrow> bool" where
  "py_eq a LNone = (a = VNull)"
| "py_eq a (LBool x) = (py_num a = Some (if x then 1 else 0))"
| "py_eq a (LInt n) = (py_num a = Some n)"
| "py_eq a (LStr x) = (a = VStr x)"

definition cmp_int :: "cmpop \<Rightarrow> int \<Rightarrow> int \<Rightarrow> bool" where
  "cmp_int op m n =
     (case op of Eq \<Rightarrow> m = n | NotEq \<Rightarrow> m \<noteq> n | Lt \<Rightarrow> m < n | LtE \<Rightarrow> m \<le> n | Gt \<Rightarrow> m > n | GtE \<Rightarrow> m \<ge> n)"

text \<open>Strings are ordered by their code points, first difference first.\<close>

fun str_cmp :: "string \<Rightarrow> string \<Rightarrow> int" where
  "str_cmp [] [] = 0"
| "str_cmp [] (y # ys) = -1"
| "str_cmp (x # xs) [] = 1"
| "str_cmp (x # xs) (y # ys) =
     (if (of_char x :: nat) < of_char y then -1
      else if (of_char y :: nat) < of_char x then 1
      else str_cmp xs ys)"

text \<open>
  \<^verbatim>\<open><\<close>, \<^verbatim>\<open><=\<close>, \<^verbatim>\<open>>\<close>, \<^verbatim>\<open>>=\<close> with a literal on the right: defined between two numbers
  and between two strings; \<^verbatim>\<open>TypeError\<close> between any other two values.
\<close>

fun py_order :: "cmpop \<Rightarrow> val \<Rightarrow> literal \<Rightarrow> exn + bool" where
  "py_order op (VStr x) b = (case b of LStr y \<Rightarrow> Inr (cmp_int op (str_cmp x y) 0) | _ \<Rightarrow> Inl TypeError)"
| "py_order op (VBool x) b =
     (case py_num (val_of b) of Some n \<Rightarrow> Inr (cmp_int op (if x then 1 else 0) n) | None \<Rightarrow> Inl TypeError)"
| "py_order op (VInt m) b =
     (case py_num (val_of b) of Some n \<Rightarrow> Inr (cmp_int op m n) | None \<Rightarrow> Inl TypeError)"
| "py_order op a b = Inl TypeError"

definition py_compare :: "cmpop \<Rightarrow> val \<Rightarrow> literal \<Rightarrow> val result" where
  "py_compare op a b =
     (case op of
        Eq \<Rightarrow> Returns (VBool (py_eq a b))
      | NotEq \<Rightarrow> Returns (VBool (\<not> py_eq a b))
      | _ \<Rightarrow> (case py_order op a b of Inl e \<Rightarrow> Raises e | Inr t \<Rightarrow> Returns (VBool t)))"

text \<open>
  The evaluator: operands left to right, \<^verbatim>\<open>and\<close> and \<^verbatim>\<open>or\<close> returning the operand that
  decides them without evaluating the other. \<^verbatim>\<open>(x := e)\<close> stores the value of \<open>e\<close>
  under \<open>x\<close> in the dictionary of local names and has that value. \<^verbatim>\<open>e.clear()\<close> empties
  the list or dictionary object that \<open>e\<close> evaluates to and has the value \<^verbatim>\<open>None\<close>; no
  other value has the method. \<^verbatim>\<open>exit()\<close> raises \<^verbatim>\<open>SystemExit\<close>, unless the local names
  have a field \<^verbatim>\<open>exit\<close>, whose value is then called and is not callable.
\<close>

fun py_eval :: "(expr, 'g) evaluator" where
  "py_eval (Name x) locals s =
     (case map_of (heap s ! locals) x of Some v \<Rightarrow> (Returns v, s) | None \<Rightarrow> (Raises NameError, s))"
| "py_eval (Constant c) locals s = (Returns (val_of c), s)"
| "py_eval (Compare l op c) locals s =
     (case py_eval l locals s of
        (Raises e, s1) \<Rightarrow> (Raises e, s1)
      | (Returns a, s1) \<Rightarrow> (py_compare op a c, s1))"
| "py_eval (BoolAnd l r) locals s =
     (case py_eval l locals s of
        (Raises e, s1) \<Rightarrow> (Raises e, s1)
      | (Returns a, s1) \<Rightarrow> if truthy s1 a then py_eval r locals s1 else (Returns a, s1))"
| "py_eval (BoolOr l r) locals s =
     (case py_eval l locals s of
        (Raises e, s1) \<Rightarrow> (Raises e, s1)
      | (Returns a, s1) \<Rightarrow> if truthy s1 a then (Returns a, s1) else py_eval r locals s1)"
| "py_eval (UnaryNot e) locals s =
     (case py_eval e locals s of
        (Raises x, s1) \<Rightarrow> (Raises x, s1)
      | (Returns a, s1) \<Rightarrow> (Returns (VBool (\<not> truthy s1 a)), s1))"
| "py_eval (NamedExpr x e) locals s =
     (case py_eval e locals s of
        (Raises x, s1) \<Rightarrow> (Raises x, s1)
      | (Returns a, s1) \<Rightarrow>
          (Returns a, s1\<lparr>heap := (heap s1)[locals := AList.update x a (heap s1 ! locals)]\<rparr>))"
| "py_eval (Clear e) locals s =
     (case py_eval e locals s of
        (Raises x, s1) \<Rightarrow> (Raises x, s1)
      | (Returns (VList a), s1) \<Rightarrow> (Returns VNull, s1\<lparr>lists := (lists s1)[a := []]\<rparr>)
      | (Returns (VDict a), s1) \<Rightarrow> (Returns VNull, s1\<lparr>heap := (heap s1)[a := []]\<rparr>)
      | (Returns _, s1) \<Rightarrow> (Raises AttributeError, s1))"
| "py_eval Exit locals s =
     (if has_key (heap s ! locals) ''exit'' then (Raises TypeError, s) else (Raises SystemExit, s))"

text \<open>The expressions that read and do nothing else.\<close>

fun reads_only :: "expr \<Rightarrow> bool" where
  "reads_only (Name x) = True"
| "reads_only (Constant c) = True"
| "reads_only (Compare l op c) = reads_only l"
| "reads_only (BoolAnd l r) = (reads_only l \<and> reads_only r)"
| "reads_only (BoolOr l r) = (reads_only l \<and> reads_only r)"
| "reads_only (UnaryNot e) = reads_only e"
| "reads_only (NamedExpr x e) = False"
| "reads_only (Clear e) = False"
| "reads_only Exit = False"

text \<open>
  A generator that returns the strings of a script, one per call whatever the provider,
  and raises once the script is used up.
\<close>

fun scripted :: "string list faker" where
  "scripted p [] = (Inl RuntimeError, [])"
| "scripted p (v # vs) = (Inr v, vs)"

section \<open>Notions used in the statements\<close>

text \<open>
  Evaluating condition \<open>c\<close> is quiet: whatever the local names and the memory, it
  comes to a result, it leaves the memory as it found it, and it raises nothing but
  subclasses of \<^verbatim>\<open>Exception\<close>. The comparisons and boolean combinations of field
  names and literals are quiet (\<open>reads_only\<close> below); an assignment expression, a call
  that changes an object, and \<^verbatim>\<open>exit()\<close> are not.
\<close>

definition quiet :: "('c, 'g) evaluator \<Rightarrow> 'c \<Rightarrow> bool" where
  "quiet ev c = (\<forall>a s. snd (ev c a s) = s \<and> (\<forall>e. fst (ev c a s) = Raises e \<longrightarrow> is_Exception e))"

text \<open>
  Rule \<open>r\<close> masks field \<open>f\<close> of the working copy at address \<open>a\<close> when its turn comes in
  memory \<open>s\<close>: its condition, evaluated with that object as local names, returns a true
  value, its target is \<open>f\<close>, and \<open>f\<close> is then a key of the object.
\<close>

definition masks :: "('c, 'g) evaluator \<Rightarrow> 'c rule \<Rightarrow> addr \<Rightarrow> 'g state \<Rightarrow> string \<Rightarrow> bool" where
  "masks ev r a s f =
     (case ev (condition r) a s of
        (Returns v, s1) \<Rightarrow> truthy s1 v \<and> field r = JStr f \<and> has_key (heap s1 ! a) f
      | (Raises e, s1) \<Rightarrow> False)"

text \<open>The value that \<^verbatim>\<open>apply_masking\<close> returns for rule \<open>r\<close> when its turn comes in memory \<open>s\<close>.\<close>

definition generated :: "('c, 'g) evaluator \<Rightarrow> 'g faker \<Rightarrow> 'c rule \<Rightarrow> addr \<Rightarrow> 'g state \<Rightarrow> string" where
  "generated ev fake r a s = fst (apply_masking fake (masking_type r) (snd (ev (condition r) a s)))"

text \<open>The memory after the inner loop has run over \<open>rules\<close> on the working copy at \<open>a\<close>.\<close>

definition after :: "('c, 'g) evaluator \<Rightarrow> 'g faker \<Rightarrow> 'c rule list \<Rightarrow> addr \<Rightarrow> 'g state \<Rightarrow> 'g state" where
  "after ev fake rules a s = snd (apply_rules ev fake rules a s)"

text \<open>
  A run of \<^verbatim>\<open>mask_data\<close> on \<open>data\<close> from memory \<open>s\<close>, at the moment the outer loop
  reaches the \<open>i\<close>-th record: the memory then (\<open>before\<close>), the address of the working copy
  the loop makes of that record (\<open>working_copy\<close>), and the memory once the copy is made
  (\<open>copied\<close>), in which the inner loop starts.
\<close>

definition before :: "('c, 'g) evaluator \<Rightarrow> 'g faker \<Rightarrow> 'c rule list \<Rightarrow> addr list \<Rightarrow> 'g state \<Rightarrow> nat \<Rightarrow> 'g state" where
  "before ev fake config data s i = snd (mask_data ev fake config (take i data) s)"

definition working_copy :: "('c, 'g) evaluator \<Rightarrow> 'g faker \<Rightarrow> 'c rule list \<Rightarrow> addr list \<Rightarrow> 'g state \<Rightarrow> nat \<Rightarrow> addr" where
  "working_copy ev fake config data s i = fst (copy (data ! i) (before ev fake config data s i))"

definition copied :: "('c, 'g) evaluator \<Rightarrow> 'g faker \<Rightarrow> 'c rule list \<Rightarrow> addr list \<Rightarrow> 'g state \<Rightarrow> nat \<Rightarrow> 'g state" where
  "copied ev fake config data s i = snd (copy (data ! i) (before ev fake config data s i))"

text \<open>
  The \<open>i\<close>-th record of the input list, and the \<open>i\<close>-th record of the list that
  \<^verbatim>\<open>mask_data\<close> returns for it, read in the memory as the call leaves it; there is none
  when the call returns no list.
\<close>

definition input_record :: "addr list \<Rightarrow> 'g state \<Rightarrow> nat \<Rightarrow> data_record" where
  "input_record data s i = heap s ! (data ! i)"

definition output_record :: "('c, 'g) evaluator \<Rightarrow> 'g faker \<Rightarrow> 'c rule list \<Rightarrow> addr list \<Rightarrow> 'g state \<Rightarrow> nat
    \<Rightarrow> data_record option" where
  "output_record ev fake config data s i =
     (case mask_data ev fake config data s of
        (Returns masked_data, s1) \<Rightarrow> Some (heap s1 ! (masked_data ! i))
      | (Raises e, s1) \<Rightarrow> None)"


text \<open>
  The two records and the rule of the scenario of the specification, with a third record
  that has no \<^verbatim>\<open>department\<close>, and a memory that holds the three.
\<close>

definition record_A :: data_record where
  "record_A = [(''name'', VStr ''A''), (''department'', VStr ''HR''), (''email'', VStr ''a@x.com'')]"

definition record_B :: data_record where
  "record_B = [(''name'', VStr ''B''), (''department'', VStr ''Sales''), (''email'', VStr ''b@x.com'')]"

definition record_C :: data_record where
  "record_C = [(''name'', VStr ''C''), (''age'', VInt 70), (''email'', VStr ''c@x.com'')]"

definition department_is_HR :: expr where
  "department_is_HR = Compare (Name ''department'') Eq (LStr ''HR'')"

definition hr_email :: "expr rule" where
  "hr_email = \<lparr>condition = department_is_HR, field = JStr ''email'', masking_type = JStr ''email''\<rparr>"

definition memory :: "string list state" where
  "memory = \<lparr>heap = [record_A, record_B, record_C], lists = [],
             gen = [''u1@example.org'', ''u2@example.org''], logs = [], files = []\<rparr>"

text \<open>More rules for the examples.\<close>

definition hr_email_text :: "expr rule" where
  "hr_email_text = \<lparr>condition = department_is_HR, field = JStr ''email'', masking_type = JStr ''text''\<rparr>"

definition hr_department :: "expr rule" where
  "hr_department = \<lparr>condition = department_is_HR, field = JStr ''department'', masking_type = JStr ''company''\<rparr>"

definition over_60 :: expr where
  "over_60 = Compare (Name ''age'') Gt (LInt 60)"

definition over_60_name :: "expr rule" where
  "over_60_name = \<lparr>condition = over_60, field = JStr ''name'', masking_type = JStr ''name''\<rparr>"

definition over_60_age :: "expr rule" where
  "over_60_age = \<lparr>condition = over_60, field = JStr ''age'', masking_type = JStr ''date''\<rparr>"

text \<open>
  Rules whose conditions do more than read, as the configuration may hold them:
  \<^verbatim>\<open>exit()\<close>, \<^verbatim>\<open>(email := 42) == 42\<close>, \<^verbatim>\<open>(nickname := 1) == 2\<close>,
  \<^verbatim>\<open>(email := 42) == 42 and nosuch\<close> and \<^verbatim>\<open>tags.clear() or True\<close>. The first three
  target a field that no record of the examples has.
\<close>

definition exit_rule :: "expr rule" where
  "exit_rule = \<lparr>condition = Exit, field = JStr ''ssn'', masking_type = JStr ''ssn''\<rparr>"

definition assign_email :: "expr rule" where
  "assign_email = \<lparr>condition = Compare (NamedExpr ''email'' (Constant (LInt 42))) Eq (LInt 42),
                    field = JStr ''ssn'', masking_type = JStr ''ssn''\<rparr>"


definition assign_then_fail :: "expr rule" where
  "assign_then_fail =
     \<lparr>condition = BoolAnd (Compare (NamedExpr ''email'' (Constant (LInt 42))) Eq (LInt 42)) (Name ''nosuch''),
      field = JStr ''email'', masking_type = JStr ''email''\<rparr>"

definition clear_tags :: "expr rule" where
  "clear_tags = \<lparr>condition = BoolOr (Clear (Name ''tags'')) (Constant (LBool True)),
                  field = JStr ''name'', masking_type = JStr ''name''\<rparr>"

text \<open>
  A memory that holds the record \<^verbatim>\<open>{"name": "A", "tags": ["b", "a"]}\<close>: a dictionary
  object and the list object that its field \<^verbatim>\<open>tags\<close> names.
\<close>

definition tagged :: "string list state" where
  "tagged = \<lparr>heap = [[(''name'', VStr ''A''), (''tags'', VList 0)]], lists = [[VStr ''b'', VStr ''a'']],
             gen = [''Jane Doe''], logs = [], files = []\<rparr>"

text \<open>The memory of the examples with another script for the generator.\<close>

definition office :: "string list state" where
  "office = memory\<lparr>gen := [''Acme Ltd'', ''Jane Doe'', ''1999-12-31'']\<rparr>"

definition archive :: "string list state" where
  "archive = memory\<lparr>gen := [''1999-12-31'', ''Jane Doe'']\<rparr>"

definition staff :: "string list state" where
  "staff = memory\<lparr>gen := [''Jane Doe'']\<rparr>"

definition sales_email :: "expr rule" where
  "sales_email = \<lparr>condition = Compare (Name ''department'') Eq (LStr ''Sales''),
                   field = JStr ''email'', masking_type = JStr ''email''\<rparr>"

text \<open>
  An element of the configuration is a rule, in the words of the specification: a mapping
  that contains all three of \<^verbatim>\<open>condition\<close>, \<^verbatim>\<open>field\<close> and \<^verbatim>\<open>masking_type\<close>.
\<close>

definition valid_rule :: "json \<Rightarrow> bool" where
  "valid_rule j =
     (case j of
        JObj kvs \<Rightarrow> map_of kvs ''condition'' \<noteq> None \<and> map_of kvs ''field'' \<noteq> None \<and> map_of kvs ''masking_type'' \<noteq> None
      | _ \<Rightarrow> False)"

text \<open>
  A file system for the examples: a configuration that is a list of one rule and one
  dictionary with no \<^verbatim>\<open>field\<close>, a configuration that is no list, one that is no JSON
  text, and a data file.
\<close>

definition disk :: "string list state" where
  "disk = \<lparr>heap = [], lists = [], gen = [''u1@example.org''], logs = [],
           files = [(''rules.json'',
                     Holds (JList [JObj [(''condition'', JStr ''department == 'HR' ''), (''field'', JStr ''email''),
                                         (''masking_type'', JStr ''email'')],
                                   JObj [(''condition'', JStr ''True''), (''masking_type'', JStr ''name'')]])),
                    (''norules.json'', Holds (JObj [(''rules'', JList [])])),
                    (''broken.json'', Malformed),
                    (''in.json'', Holds (JList [JObj [(''department'', JStr ''HR''), (''email'', JStr ''a@x.com'')]]))]\<rparr>"

section \<open>Lemmas about the engine\<close>

subsection \<open>Logging and generating leave the objects alone\<close>

lemma logging_simps [simp]:
  "heap (logging lv m s) = heap s" "lists (logging lv m s) = lists s" "gen (logging lv m s) = gen s"
  "files (logging lv m s) = files s" "logs (logging lv m s) = logs s @ [(lv, m)]"
  by (simp_all add: logging_def)

lemma call_provider_frame [simp]:
  "heap (snd (call_provider fake p s)) = heap s"
  "lists (snd (call_provider fake p s)) = lists s"
  "files (snd (call_provider fake p s)) = files s"
  by (auto simp: call_provider_def split: prod.splits sum.splits)

lemma apply_masking_frame [simp]:
  "heap (snd (apply_masking fake mt s)) = heap s"
  "lists (snd (apply_masking fake mt s)) = lists s"
  "files (snd (apply_masking fake mt s)) = files s"
  by (simp_all add: apply_masking_def)

subsection \<open>One rule, when evaluating its condition is quiet\<close>

lemma quiet_ev:
  assumes "quiet ev c"
  shows "\<exists>res. ev c a s = (res, s) \<and> (\<forall>e. res = Raises e \<longrightarrow> is_Exception e)"
proof -
  from assms have "snd (ev c a s) = s" and "\<forall>e. fst (ev c a s) = Raises e \<longrightarrow> is_Exception e"
    by (simp_all add: quiet_def)
  then show ?thesis by (cases "ev c a s") auto
qed

lemma apply_rule_masks:
  assumes "quiet ev (condition r)" and "masks ev r a s f"
  shows "apply_rule ev fake r a s =
           (None, (snd (apply_masking fake (masking_type r) s))
             \<lparr>heap := (heap s)[a := AList.update f (VStr (generated ev fake r a s)) (heap s ! a)]\<rparr>)"
proof -
  from quiet_ev [OF assms(1), of a s] obtain res where ev: "ev (condition r) a s = (res, s)"
    by blast
  with assms(2) obtain v where res: "res = Returns v" and "truthy s v" "field r = JStr f"
    "has_key (heap s ! a) f"
    by (cases res) (auto simp: masks_def)
  obtain m s2 where eq: "apply_masking fake (masking_type r) s = (m, s2)"
    by (cases "apply_masking fake (masking_type r) s")
  have "heap (snd (apply_masking fake (masking_type r) s)) = heap s" by simp
  with eq have "heap s2 = heap s" by simp
  with ev res eq \<open>truthy s v\<close> \<open>field r = JStr f\<close> \<open>has_key (heap s ! a) f\<close> show ?thesis
    by (simp add: apply_rule_def generated_def)
qed

lemma apply_rule_idle:
  assumes "quiet ev (condition r)" and "\<forall>f. \<not> masks ev r a s f"
  shows "\<exists>l. apply_rule ev fake r a s = (None, s\<lparr>logs := logs s @ l\<rparr>)"
proof -
  from quiet_ev [OF assms(1), of a s] obtain res where ev: "ev (condition r) a s = (res, s)"
    and exc: "\<And>e. res = Raises e \<Longrightarrow> is_Exception e"
    by blast
  have "apply_rule ev fake r a s = (None, s) \<or> (\<exists>lv m. apply_rule ev fake r a s = (None, logging lv m s))"
  proof (cases res)
    case (Raises e)
    with exc have "is_Exception e" by simp
    with ev Raises have "\<exists>lv m. apply_rule ev fake r a s = (None, logging lv m s)"
      by (auto simp: apply_rule_def)
    then show ?thesis ..
  next
    case (Returns v)
    with ev assms(2) have "\<not> truthy s v \<or> (\<forall>f. field r = JStr f \<longrightarrow> \<not> has_key (heap s ! a) f)"
      by (auto simp: masks_def)
    with ev Returns show ?thesis
      by (auto simp: apply_rule_def split: json.splits)
  qed
  then show ?thesis
  proof
    assume "apply_rule ev fake r a s = (None, s)"
    then have "apply_rule ev fake r a s = (None, s\<lparr>logs := logs s @ []\<rparr>)" by simp
    then show ?thesis by blast
  next
    assume "\<exists>lv m. apply_rule ev fake r a s = (None, logging lv m s)"
    then show ?thesis by (auto simp: logging_def)
  qed
qed

lemma apply_rule_returns: "quiet ev (condition r) \<Longrightarrow> fst (apply_rule ev fake r a s) = None"
proof (cases "\<exists>f. masks ev r a s f")
  case True
  assume "quiet ev (condition r)"
  moreover from True obtain f where "masks ev r a s f" ..
  ultimately show ?thesis by (simp add: apply_rule_masks)
next
  case False
  assume "quiet ev (condition r)"
  with False obtain l where "apply_rule ev fake r a s = (None, s\<lparr>logs := logs s @ l\<rparr>)"
    using apply_rule_idle [of ev r a s fake] by blast
  then show ?thesis by simp
qed

lemma apply_rule_frame:
  assumes "quiet ev (condition r)"
  shows "length (heap (snd (apply_rule ev fake r a s))) = length (heap s)"
    and "lists (snd (apply_rule ev fake r a s)) = lists s"
    and "files (snd (apply_rule ev fake r a s)) = files s"
    and "b \<noteq> a \<Longrightarrow> heap (snd (apply_rule ev fake r a s)) ! b = heap s ! b"
    and "take a (heap (snd (apply_rule ev fake r a s))) = take a (heap s)"
proof -
  have "length (heap (snd (apply_rule ev fake r a s))) = length (heap s)
      \<and> lists (snd (apply_rule ev fake r a s)) = lists s
      \<and> files (snd (apply_rule ev fake r a s)) = files s
      \<and> (b \<noteq> a \<longrightarrow> heap (snd (apply_rule ev fake r a s)) ! b = heap s ! b)
      \<and> take a (heap (snd (apply_rule ev fake r a s))) = take a (heap s)"
  proof (cases "\<exists>f. masks ev r a s f")
    case True
    then obtain f where "masks ev r a s f" ..
    with assms show ?thesis by (simp add: apply_rule_masks)
  next
    case False
    with assms obtain l where "apply_rule ev fake r a s = (None, s\<lparr>logs := logs s @ l\<rparr>)"
      using apply_rule_idle [of ev r a s fake] by blast
    then show ?thesis by simp
  qed
  then show "length (heap (snd (apply_rule ev fake r a s))) = length (heap s)"
    and "lists (snd (apply_rule ev fake r a s)) = lists s"
    and "files (snd (apply_rule ev fake r a s)) = files s"
    and "b \<noteq> a \<Longrightarrow> heap (snd (apply_rule ev fake r a s)) ! b = heap s ! b"
    and "take a (heap (snd (apply_rule ev fake r a s))) = take a (heap s)"
    by simp_all
qed

lemma apply_rule_heap_idle:
  assumes "quiet ev (condition r)" and "\<forall>f. \<not> masks ev r a s f"
  shows "heap (snd (apply_rule ev fake r a s)) = heap s"
proof -
  from assms obtain l where "apply_rule ev fake r a s = (None, s\<lparr>logs := logs s @ l\<rparr>)"
    using apply_rule_idle [of ev r a s fake] by blast
  then show ?thesis by simp
qed

lemma masks_field: "masks ev r a s f \<Longrightarrow> masks ev r a s f' \<Longrightarrow> f' = f"
  by (auto simp: masks_def split: prod.splits result.splits)




lemma apply_rule_lookup:
  assumes "quiet ev (condition r)" and "a < length (heap s)"
  shows "map_of (heap (snd (apply_rule ev fake r a s)) ! a) f =
           (if masks ev r a s f then Some (VStr (generated ev fake r a s))
            else map_of (heap s ! a) f)"
proof (cases "\<exists>f'. masks ev r a s f'")
  case True
  then obtain f' where f': "masks ev r a s f'" ..
  show ?thesis
  proof (cases "f' = f")
    case True
    with f' assms show ?thesis by (simp add: apply_rule_masks update_conv')
  next
    case False
    with f' have "\<not> masks ev r a s f" using masks_field by blast
    with f' False assms show ?thesis by (simp add: apply_rule_masks update_conv')
  qed
next
  case False
  with assms show ?thesis by (simp add: apply_rule_heap_idle)
qed

subsection \<open>The inner loop, when every condition is quiet\<close>

lemma apply_rules_Cons_quiet:
  assumes "quiet ev (condition r)"
  shows "apply_rules ev fake (r # rs) a s = apply_rules ev fake rs a (snd (apply_rule ev fake r a s))"
proof -
  from assms have "fst (apply_rule ev fake r a s) = None" by (rule apply_rule_returns)
  then show ?thesis by (cases "apply_rule ev fake r a s") simp
qed

lemma apply_rules_returns:
  "\<forall>r\<in>set rs. quiet ev (condition r) \<Longrightarrow> fst (apply_rules ev fake rs a s) = None"
  by (induction rs arbitrary: s) (simp_all add: apply_rules_Cons_quiet del: apply_rules.simps(2))

lemma after_Nil [simp]: "after ev fake [] a s = s"
  by (simp add: after_def)

lemma after_Cons:
  "quiet ev (condition r) \<Longrightarrow>
     after ev fake (r # rs) a s = after ev fake rs a (snd (apply_rule ev fake r a s))"
  by (simp add: after_def apply_rules_Cons_quiet del: apply_rules.simps(2))

lemma after_single: "after ev fake [r] a s = snd (apply_rule ev fake r a s)"
  by (simp add: after_def split: prod.splits option.splits)

lemma after_append:
  "\<forall>r\<in>set rs. quiet ev (condition r) \<Longrightarrow>
     after ev fake (rs @ rs') a s = after ev fake rs' a (after ev fake rs a s)"
  by (induction rs arbitrary: s) (simp_all add: after_Cons)

lemma after_snoc:
  "\<forall>r\<in>set rs. quiet ev (condition r) \<Longrightarrow>
     after ev fake (rs @ [r]) a s = snd (apply_rule ev fake r a (after ev fake rs a s))"
  by (simp add: after_append after_single)

lemma after_frame:
  assumes "\<forall>r\<in>set rs. quiet ev (condition r)"
  shows "length (heap (after ev fake rs a s)) = length (heap s)"
    and "lists (after ev fake rs a s) = lists s"
    and "files (after ev fake rs a s) = files s"
    and "b \<noteq> a \<Longrightarrow> heap (after ev fake rs a s) ! b = heap s ! b"
    and "take a (heap (after ev fake rs a s)) = take a (heap s)"
  using assms by (induction rs arbitrary: s) (simp_all add: after_Cons apply_rule_frame)


subsection \<open>The outer loop, when every condition is quiet\<close>

lemma mask_loop_Cons_quiet:
  assumes "\<forall>r\<in>set config. quiet ev (condition r)"
  shows "mask_loop ev fake config (x # rest) acc s =
           mask_loop ev fake config rest (acc @ [length (heap s)])
             (after ev fake config (length (heap s)) (snd (copy x s)))"
proof -
  from assms have "fst (apply_rules ev fake config (length (heap s)) (snd (copy x s))) = None"
    by (rule apply_rules_returns)
  then show ?thesis
    by (cases "apply_rules ev fake config (length (heap s)) (snd (copy x s))")
       (simp add: copy_def after_def)
qed

lemma copy_simps [simp]:
  "fst (copy a s) = length (heap s)"
  "heap (snd (copy a s)) = heap s @ [heap s ! a]"
  "lists (snd (copy a s)) = lists s"
  "files (snd (copy a s)) = files s"
  by (simp_all add: copy_def)

lemma mask_loop_quiet:
  assumes "\<forall>r\<in>set config. quiet ev (condition r)"
  shows "fst (mask_loop ev fake config data acc s)
           = Returns (acc @ [length (heap s) ..< length (heap s) + length data])
       \<and> length (heap (snd (mask_loop ev fake config data acc s))) = length (heap s) + length data
       \<and> take (length (heap s)) (heap (snd (mask_loop ev fake config data acc s))) = heap s
       \<and> lists (snd (mask_loop ev fake config data acc s)) = lists s
       \<and> files (snd (mask_loop ev fake config data acc s)) = files s"
proof (induction data arbitrary: acc s)
  case Nil
  show ?case by simp
next
  case (Cons x rest)
  let ?n = "length (heap s)"
  let ?u = "after ev fake config ?n (snd (copy x s))"
  have len: "length (heap ?u) = Suc ?n" using assms by (simp add: after_frame)
  have old: "take ?n (heap ?u) = heap s" using assms by (simp add: after_frame)
  have ls: "lists ?u = lists s" "files ?u = files s" using assms by (simp_all add: after_frame)
  have step: "mask_loop ev fake config (x # rest) acc s = mask_loop ev fake config rest (acc @ [?n]) ?u"
    using assms by (rule mask_loop_Cons_quiet)
  have upt: "[?n ..< ?n + length (x # rest)] = ?n # [Suc ?n ..< Suc ?n + length rest]"
    by (subst upt_rec) simp
  from Cons.IH [of "acc @ [?n]" ?u]
  have ih: "fst (mask_loop ev fake config rest (acc @ [?n]) ?u)
           = Returns ((acc @ [?n]) @ [Suc ?n ..< Suc ?n + length rest])"
    "length (heap (snd (mask_loop ev fake config rest (acc @ [?n]) ?u))) = Suc ?n + length rest"
    "take (Suc ?n) (heap (snd (mask_loop ev fake config rest (acc @ [?n]) ?u))) = heap ?u"
    "lists (snd (mask_loop ev fake config rest (acc @ [?n]) ?u)) = lists s"
    "files (snd (mask_loop ev fake config rest (acc @ [?n]) ?u)) = files s"
    by (simp_all add: len ls)
  have "take ?n (heap (snd (mask_loop ev fake config rest (acc @ [?n]) ?u)))
          = take ?n (take (Suc ?n) (heap (snd (mask_loop ev fake config rest (acc @ [?n]) ?u))))"
    by simp
  also have "\<dots> = heap s" by (simp only: ih(3) old)
  finally have old': "take ?n (heap (snd (mask_loop ev fake config rest (acc @ [?n]) ?u))) = heap s" .
  show ?case
    unfolding step upt using ih(1,2,4,5) old' by simp
qed

lemma mask_loop_append:
  assumes "\<forall>r\<in>set config. quiet ev (condition r)"
  shows "mask_loop ev fake config (xs @ ys) acc s =
           mask_loop ev fake config ys (acc @ [length (heap s) ..< length (heap s) + length xs])
             (snd (mask_loop ev fake config xs acc s))"
proof (induction xs arbitrary: acc s)
  case Nil
  show ?case by simp
next
  case (Cons x xs)
  let ?n = "length (heap s)"
  let ?u = "after ev fake config ?n (snd (copy x s))"
  have len: "length (heap ?u) = Suc ?n" using assms by (simp add: after_frame)
  have upt: "[?n ..< ?n + length (x # xs)] = ?n # [Suc ?n ..< Suc ?n + length xs]"
    by (subst upt_rec) simp
  have one: "mask_loop ev fake config ((x # xs) @ ys) acc s
          = mask_loop ev fake config (xs @ ys) (acc @ [?n]) ?u"
    using mask_loop_Cons_quiet [OF assms, where fake = fake and x = x and rest = "xs @ ys" and acc = acc and s = s]
    by (simp del: mask_loop.simps)
  have two: "mask_loop ev fake config (xs @ ys) (acc @ [?n]) ?u
          = mask_loop ev fake config ys ((acc @ [?n]) @ [Suc ?n ..< Suc ?n + length xs])
             (snd (mask_loop ev fake config xs (acc @ [?n]) ?u))"
    using Cons.IH [of "acc @ [?n]" ?u] by (simp only: len)
  have three: "mask_loop ev fake config (x # xs) acc s = mask_loop ev fake config xs (acc @ [?n]) ?u"
    using assms by (rule mask_loop_Cons_quiet)
  have four: "(acc @ [?n]) @ [Suc ?n ..< Suc ?n + length xs] = acc @ [?n ..< ?n + length (x # xs)]"
    by (simp only: upt append_assoc append_Cons append_Nil)
  show ?case by (simp only: one two three four)
qed

subsection \<open>The run of \<^verbatim>\<open>mask_data\<close>, when every condition is quiet\<close>

lemma before_frame:
  assumes "\<forall>r\<in>set config. quiet ev (condition r)" and "i \<le> length data"
  shows "length (heap (before ev fake config data s i)) = length (heap s) + i"
    and "take (length (heap s)) (heap (before ev fake config data s i)) = heap s"
    and "lists (before ev fake config data s i) = lists s"
proof -
  let ?m = "mask_loop ev fake config (take i data) [] s"
  note all = mask_loop_quiet [OF assms(1), where fake = fake and data = "take i data" and acc = "[]" and s = s]
  from assms(2) have i: "length (take i data) = i" by simp
  from all [THEN conjunct2, THEN conjunct1]
  have "length (heap (snd ?m)) = length (heap s) + length (take i data)" .
  then show "length (heap (before ev fake config data s i)) = length (heap s) + i"
    by (simp only: before_def mask_data_def i)
  from all [THEN conjunct2, THEN conjunct2, THEN conjunct1]
  have "take (length (heap s)) (heap (snd ?m)) = heap s" .
  then show "take (length (heap s)) (heap (before ev fake config data s i)) = heap s"
    by (simp only: before_def mask_data_def)
  from all [THEN conjunct2, THEN conjunct2, THEN conjunct2, THEN conjunct1]
  have "lists (snd ?m) = lists s" .
  then show "lists (before ev fake config data s i) = lists s"
    by (simp only: before_def mask_data_def)
qed

lemma working_copy_eq:
  assumes "\<forall>r\<in>set config. quiet ev (condition r)" and "i \<le> length data"
  shows "working_copy ev fake config data s i = length (heap s) + i"
  using before_frame(1) [OF assms] by (simp add: working_copy_def)

lemma take_nth_eq: "take n xs = ys \<Longrightarrow> i < n \<Longrightarrow> xs ! i = ys ! i"
  by (metis nth_take)

lemma copied_record:
  assumes "\<forall>r\<in>set config. quiet ev (condition r)" and "i < length data"
    and "data ! i < length (heap s)"
  shows "heap (copied ev fake config data s i) ! (working_copy ev fake config data s i)
           = input_record data s i"
proof -
  from assms(2) have "i \<le> length data" by simp
  with assms(1) have "take (length (heap s)) (heap (before ev fake config data s i)) = heap s"
    by (rule before_frame(2))
  then have "heap (before ev fake config data s i) ! (data ! i) = heap s ! (data ! i)"
    using assms(3) by (rule take_nth_eq)
  then show ?thesis
    by (simp add: copied_def working_copy_def input_record_def)
qed

lemma working_copy_valid:
  "working_copy ev fake config data s i < length (heap (copied ev fake config data s i))"
  by (simp add: copied_def working_copy_def)

lemma output_record_run:
  assumes "\<forall>r\<in>set config. quiet ev (condition r)" and "i < length data"
  shows "output_record ev fake config data s i
           = Some (heap (after ev fake config (working_copy ev fake config data s i)
                           (copied ev fake config data s i))
                   ! working_copy ev fake config data s i)"
proof -
  let ?n = "length (heap s)"
  let ?b = "before ev fake config data s i"
  let ?c = "working_copy ev fake config data s i"
  let ?u = "after ev fake config ?c (copied ev fake config data s i)"
  let ?ys = "drop (Suc i) data"
  let ?acc = "([] @ [?n ..< ?n + i]) @ [?c]"
  from assms(2) have i: "i \<le> length data" by simp
  have c: "?c = length (heap ?b)" by (simp add: working_copy_def)
  have cn: "?c = ?n + i" using assms(1) i by (rule working_copy_eq)
  have "take i data @ data ! i # ?ys = data"
    using assms(2) by (simp add: id_take_nth_drop [symmetric])
  then have "mask_data ev fake config data s = mask_loop ev fake config (take i data @ data ! i # ?ys) [] s"
    by (simp only: mask_data_def)
  also have "\<dots> = mask_loop ev fake config (data ! i # ?ys) ([] @ [?n ..< ?n + i]) ?b"
    using mask_loop_append [OF assms(1), where fake = fake and xs = "take i data" and ys = "data ! i # ?ys" and acc = "[]" and s = s] assms(2)
    by (simp add: before_def mask_data_def del: mask_loop.simps)
  also have "\<dots> = mask_loop ev fake config ?ys ?acc ?u"
    using mask_loop_Cons_quiet [OF assms(1), where fake = fake and x = "data ! i" and rest = ?ys and acc = "[] @ [?n ..< ?n + i]" and s = ?b]
    by (simp add: c copied_def del: mask_loop.simps)
  finally have run: "mask_data ev fake config data s = mask_loop ev fake config ?ys ?acc ?u" .
  have len: "length (heap ?u) = Suc ?c"
    using assms(1) by (simp add: after_frame copied_def c)
  from mask_loop_quiet [OF assms(1), where fake = fake and data = ?ys and acc = ?acc and s = ?u]
  have out: "fst (mask_loop ev fake config ?ys ?acc ?u)
               = Returns (?acc @ [Suc ?c ..< Suc ?c + length ?ys])"
    and old: "take (Suc ?c) (heap (snd (mask_loop ev fake config ?ys ?acc ?u))) = heap ?u"
    by (simp_all only: len)
  have nth: "(?acc @ [Suc ?c ..< Suc ?c + length ?ys]) ! i = ?c"
    by (simp add: nth_append)
  have "heap (snd (mask_loop ev fake config ?ys ?acc ?u)) ! ?c = heap ?u ! ?c"
    using old by (rule take_nth_eq) simp
  with out nth show ?thesis
    unfolding output_record_def run
    by (cases "mask_loop ev fake config ?ys ?acc ?u") simp
qed

subsection \<open>The condition language\<close>

lemma py_order_raises: "py_order op a b = Inl x \<Longrightarrow> x = TypeError"
  by (cases a; cases b) (auto split: option.splits)

lemma py_compare_raises: "py_compare op a b = Raises x \<Longrightarrow> is_Exception x"
  by (cases op) (auto simp: py_compare_def dest: py_order_raises split: sum.splits)

lemma py_eval_reads_only:
  "reads_only e \<Longrightarrow>
     snd (py_eval e a s) = s \<and> (\<forall>x. fst (py_eval e a s) = Raises x \<longrightarrow> is_Exception x)"
proof (induction e)
  case (Name x)
  show ?case by (simp split: option.splits)
next
  case (Constant c)
  show ?case by simp
next
  case (Compare l op c)
  then have "snd (py_eval l a s) = s" and "\<forall>x. fst (py_eval l a s) = Raises x \<longrightarrow> is_Exception x"
    by simp_all
  then show ?case
    by (cases "py_eval l a s") (auto split: result.splits dest: py_compare_raises)
next
  case (BoolAnd l r)
  then have "snd (py_eval l a s) = s" and "\<forall>x. fst (py_eval l a s) = Raises x \<longrightarrow> is_Exception x"
    and "snd (py_eval r a s) = s" and "\<forall>x. fst (py_eval r a s) = Raises x \<longrightarrow> is_Exception x"
    by simp_all
  then show ?case
    by (cases "py_eval l a s") (auto split: result.splits)
next
  case (BoolOr l r)
  then have "snd (py_eval l a s) = s" and "\<forall>x. fst (py_eval l a s) = Raises x \<longrightarrow> is_Exception x"
    and "snd (py_eval r a s) = s" and "\<forall>x. fst (py_eval r a s) = Raises x \<longrightarrow> is_Exception x"
    by simp_all
  then show ?case
    by (cases "py_eval l a s") (auto split: result.splits)
next
  case (UnaryNot e)
  then have "snd (py_eval e a s) = s" and "\<forall>x. fst (py_eval e a s) = Raises x \<longrightarrow> is_Exception x"
    by simp_all
  then show ?case
    by (cases "py_eval e a s") (auto split: result.splits)
next
  case (NamedExpr x e)
  then show ?case by simp
next
  case (Clear e)
  then show ?case by simp
next
  case Exit
  then show ?case by simp
qed

lemma reads_only_quiet: "reads_only e \<Longrightarrow> quiet py_eval e"
  by (simp add: quiet_def py_eval_reads_only)

subsection \<open>The examples\<close>

lemma quiet_examples [simp]:
  "quiet py_eval (condition hr_email)" "quiet py_eval (condition hr_email_text)"
  "quiet py_eval (condition hr_department)" "quiet py_eval (condition over_60_name)"
  "quiet py_eval (condition over_60_age)"
  by (simp_all add: reads_only_quiet hr_email_def hr_email_text_def hr_department_def
        over_60_name_def over_60_age_def department_is_HR_def over_60_def)

subsection \<open>What the inner loop keeps\<close>

lemma after_string:
  "\<forall>r\<in>set rs. quiet ev (condition r) \<Longrightarrow> a < length (heap s) \<Longrightarrow>
     \<exists>v. map_of (heap s ! a) f = Some (VStr v) \<Longrightarrow>
     \<exists>v. map_of (heap (after ev fake rs a s) ! a) f = Some (VStr v)"
proof (induction rs arbitrary: s)
  case Nil
  then show ?case by simp
next
  case (Cons r rs)
  let ?s1 = "snd (apply_rule ev fake r a s)"
  from Cons.prems(1) have q: "quiet ev (condition r)" and qs: "\<forall>r\<in>set rs. quiet ev (condition r)"
    by simp_all
  have len: "a < length (heap ?s1)"
    using apply_rule_frame(1) [OF q, of fake a s] Cons.prems(2) by simp
  have "\<exists>v. map_of (heap ?s1 ! a) f = Some (VStr v)"
    using apply_rule_lookup [OF q Cons.prems(2), of fake f] Cons.prems(3) by simp
  with qs len have "\<exists>v. map_of (heap (after ev fake rs a ?s1) ! a) f = Some (VStr v)"
    by (rule Cons.IH)
  then show ?case by (simp add: after_Cons q)
qed

lemma after_split:
  assumes "\<forall>r\<in>set (pre @ r # post). quiet ev (condition r)"
  shows "after ev fake (pre @ r # post) a s
           = after ev fake post a (snd (apply_rule ev fake r a (after ev fake pre a s)))"
proof -
  from assms have "\<forall>r\<in>set pre. quiet ev (condition r)" and "quiet ev (condition r)" by simp_all
  then show ?thesis by (simp add: after_append after_Cons)
qed

lemma upt_3: "[3 ..< 3 + 2] = [3, 4::nat]"
  by code_simp

lemma after_unmasked:
  assumes "\<forall>r\<in>set rs. quiet ev (condition r)" and "a < length (heap s)"
    and "\<forall>p r q. rs = p @ r # q \<longrightarrow> \<not> masks ev r a (after ev fake p a s) f"
  shows "map_of (heap (after ev fake rs a s) ! a) f = map_of (heap s ! a) f"
  using assms(1,3)
proof (induction rs rule: rev_induct)
  case Nil
  show ?case by simp
next
  case (snoc x xs)
  let ?t = "after ev fake xs a s"
  from snoc.prems(1) have qxs: "\<forall>r\<in>set xs. quiet ev (condition r)" and qx: "quiet ev (condition x)"
    by simp_all
  have nm: "\<not> masks ev x a ?t f"
    using snoc.prems(2) [rule_format, of xs x "[]"] by simp
  have "\<forall>p r q. xs = p @ r # q \<longrightarrow> \<not> masks ev r a (after ev fake p a s) f"
  proof (intro allI impI)
    fix p r q
    assume "xs = p @ r # q"
    then have "xs @ [x] = p @ r # (q @ [x])" by simp
    then show "\<not> masks ev r a (after ev fake p a s) f"
      by (rule snoc.prems(2) [rule_format])
  qed
  with qxs have ih: "map_of (heap ?t ! a) f = map_of (heap s ! a) f" by (rule snoc.IH)
  have len: "a < length (heap ?t)"
    using after_frame(1) [OF qxs, of fake a s] assms(2) by simp
  have "map_of (heap (snd (apply_rule ev fake x a ?t)) ! a) f = map_of (heap ?t ! a) f"
    using apply_rule_lookup [OF qx len, of fake f] nm by simp
  with ih show ?case by (simp add: after_snoc qxs)
qed

subsection \<open>One rule, whatever its condition does\<close>

lemma apply_rules_snoc:
  "fst (apply_rules ev fake pre a s) = None \<Longrightarrow>
     apply_rules ev fake (pre @ [r]) a s = apply_rule ev fake r a (snd (apply_rules ev fake pre a s))"
proof (induction pre arbitrary: s)
  case Nil
  show ?case by (simp split: prod.splits option.splits)
next
  case (Cons x xs)
  obtain o1 s1 where x: "apply_rule ev fake x a s = (o1, s1)" by (cases "apply_rule ev fake x a s")
  show ?case
  proof (cases o1)
    case None
    with x Cons.prems have "fst (apply_rules ev fake xs a s1) = None" by simp
    then have "apply_rules ev fake (xs @ [r]) a s1 = apply_rule ev fake r a (snd (apply_rules ev fake xs a s1))"
      by (rule Cons.IH)
    with x None show ?thesis by simp
  next
    case (Some e)
    with x Cons.prems show ?thesis by simp
  qed
qed

lemma apply_rule_masks_heap:
  assumes "masks ev r a s f"
  shows "heap (snd (apply_rule ev fake r a s))
           = (heap (snd (ev (condition r) a s)))[a :=
                AList.update f (VStr (generated ev fake r a s)) (heap (snd (ev (condition r) a s)) ! a)]"
proof -
  obtain res s1 where ev: "ev (condition r) a s = (res, s1)" by (cases "ev (condition r) a s")
  with assms obtain v where res: "res = Returns v" and "truthy s1 v" "field r = JStr f"
    "has_key (heap s1 ! a) f"
    by (cases res) (auto simp: masks_def)
  obtain m s2 where eq: "apply_masking fake (masking_type r) s1 = (m, s2)"
    by (cases "apply_masking fake (masking_type r) s1")
  have "heap (snd (apply_masking fake (masking_type r) s1)) = heap s1" by simp
  with eq have "heap s2 = heap s1" by simp
  with ev res eq \<open>truthy s1 v\<close> \<open>field r = JStr f\<close> \<open>has_key (heap s1 ! a) f\<close> show ?thesis
    by (simp add: apply_rule_def generated_def)
qed

lemma apply_rule_idle_heap:
  assumes "\<forall>f. \<not> masks ev r a s f"
  shows "heap (snd (apply_rule ev fake r a s)) = heap (snd (ev (condition r) a s))"
proof -
  obtain res s1 where ev: "ev (condition r) a s = (res, s1)" by (cases "ev (condition r) a s")
  show ?thesis
  proof (cases res)
    case (Raises e)
    with ev show ?thesis by (simp add: apply_rule_def)
  next
    case (Returns v)
    with ev assms have "\<not> truthy s1 v \<or> (\<forall>f. field r = JStr f \<longrightarrow> \<not> has_key (heap s1 ! a) f)"
      by (auto simp: masks_def)
    with ev Returns show ?thesis
      by (auto simp: apply_rule_def split: json.splits)
  qed
qed


lemma apply_rule_raises:
  assumes "quiet ev (condition r)" and "fst (ev (condition r) a s) = Raises e"
  shows "\<exists>m. apply_rule ev fake r a s = (None, logging ERROR m s)"
proof -
  from quiet_ev [OF assms(1), of a s] obtain res where ev: "ev (condition r) a s = (res, s)"
    and "\<forall>e. res = Raises e \<longrightarrow> is_Exception e" by blast
  with assms(2) have "res = Raises e" and "is_Exception e" by simp_all
  with ev show ?thesis by (auto simp: apply_rule_def)
qed

subsection \<open>Loading the rules\<close>

lemma rule_of_json_valid: "rule_of_json j = None \<longleftrightarrow> \<not> valid_rule j"
  by (auto simp: rule_of_json_def valid_rule_def split: json.splits option.splits)

lemma check_rules_invalid:
  "\<exists>j\<in>set rules. \<not> valid_rule j \<Longrightarrow> \<exists>m. check_rules rules = Inl (ValueError m)"
proof (induction rules)
  case Nil
  then show ?case by simp
next
  case (Cons j js)
  show ?case
  proof (cases "rule_of_json j")
    case None
    then show ?thesis by simp
  next
    case (Some r)
    then have "valid_rule j" using rule_of_json_valid [of j] by simp
    with Cons.prems have "\<exists>j\<in>set js. \<not> valid_rule j" by auto
    then obtain m where "check_rules js = Inl (ValueError m)" using Cons.IH by blast
    with Some show ?thesis by simp
  qed
qed

lemma check_rules_valid:
  "\<forall>j\<in>set rules. valid_rule j \<Longrightarrow>
     \<exists>config. check_rules rules = Inr config \<and> map Some config = map rule_of_json rules"
proof (induction rules)
  case Nil
  then show ?case by simp
next
  case (Cons j js)
  then have "valid_rule j" by simp
  then obtain r where r: "rule_of_json j = Some r" using rule_of_json_valid [of j] by auto
  from Cons obtain config where "check_rules js = Inr config" and "map Some config = map rule_of_json js"
    by auto
  with r show ?case by simp
qed

lemma load_config_fails:
  assumes "\<exists>e. read_config config_file s = Inl e"
  shows "fst (load_config config_file s) = None \<and> (\<exists>m. snd (load_config config_file s) = logging ERROR m s)"
proof -
  from assms obtain e where "read_config config_file s = Inl e" ..
  then show ?thesis by (cases e) (auto simp: load_config_def)
qed

section \<open>The claims\<close>




text \<open>
  Claim C9, at the configuration
  \<^verbatim>\<open>[{"condition": "tags.clear() or True", "field": "name", "masking_type": "name"}]\<close>
  and the input \<^verbatim>\<open>[{"name": "A", "tags": ["b", "a"]}]\<close>. The copy that \<^verbatim>\<open>mask_data\<close>
  makes of the record shares the list with it, and the condition is evaluated on the copy:
  after the call the input record still names the same list, and the list is empty.
\<close>

theorem mask_data_changes_input_record:
  "input_record [0] tagged 0 = [(''name'', VStr ''A''), (''tags'', VList 0)]
   \<and> lists tagged ! 0 = [VStr ''b'', VStr ''a'']
   \<and> fst (mask_data py_eval scripted [clear_tags] [0] tagged) = Returns [1]
   \<and> input_record [0] (snd (mask_data py_eval scripted [clear_tags] [0] tagged)) 0
       = [(''name'', VStr ''A''), (''tags'', VList 0)]
   \<and> lists (snd (mask_data py_eval scripted [clear_tags] [0] tagged)) ! 0 = []
   \<and> output_record py_eval scripted [clear_tags] [0] tagged 0
       = Some [(''name'', VStr ''Jane Doe''), (''tags'', VList 0)]"
  by (simp add: input_record_def output_record_def tagged_def mask_data_def copy_def clear_tags_def
        apply_rule_def apply_masking_def call_provider_def logging_def has_key_def)

text \<open>
  Claim C1, amended. For every rule set whose conditions are quiet and every input list,
  \<^verbatim>\<open>mask_data\<close> returns a list with one output record per input record, in the order of
  the input: the list of the addresses of as many new objects as the input has records,
  the \<open>i\<close>-th of them made as a copy of the \<open>i\<close>-th input record and holding, when the
  call returns, what the inner loop made of that copy.
\<close>

theorem mask_data_one_to_one:
  assumes "\<forall>r\<in>set config. quiet ev (condition r)"
  shows "fst (mask_data ev fake config data s)
           = Returns [length (heap s) ..< length (heap s) + length data]
       \<and> (\<forall>i<length data.
            working_copy ev fake config data s i = length (heap s) + i
            \<and> (data ! i < length (heap s) \<longrightarrow>
                  heap (copied ev fake config data s i) ! (length (heap s) + i) = input_record data s i)
            \<and> output_record ev fake config data s i
                = Some (heap (after ev fake config (length (heap s) + i) (copied ev fake config data s i))
                        ! (length (heap s) + i)))"
proof (intro conjI allI impI)
  show "fst (mask_data ev fake config data s)
           = Returns [length (heap s) ..< length (heap s) + length data]"
    using mask_loop_quiet [OF assms, where fake = fake and data = data and acc = "[]" and s = s]
    by (simp add: mask_data_def)
next
  fix i
  assume "i < length data"
  then have "i \<le> length data" by simp
  with assms show "working_copy ev fake config data s i = length (heap s) + i"
    by (rule working_copy_eq)
next
  fix i
  assume i: "i < length data" and "data ! i < length (heap s)"
  with assms
  have "heap (copied ev fake config data s i) ! (working_copy ev fake config data s i)
          = input_record data s i"
    by (rule copied_record)
  moreover from i have "i \<le> length data" by simp
  with assms have "working_copy ev fake config data s i = length (heap s) + i"
    by (rule working_copy_eq)
  ultimately show "heap (copied ev fake config data s i) ! (length (heap s) + i) = input_record data s i"
    by simp
next
  fix i
  assume i: "i < length data"
  then have "i \<le> length data" by simp
  with assms have "working_copy ev fake config data s i = length (heap s) + i"
    by (rule working_copy_eq)
  with output_record_run [OF assms i, of fake s]
  show "output_record ev fake config data s i
          = Some (heap (after ev fake config (length (heap s) + i) (copied ev fake config data s i))
                  ! (length (heap s) + i))"
    by simp
qed

theorem mask_data_one_to_one_witness:
  "fst (mask_data py_eval scripted [hr_email] [1, 0] memory) = Returns [3, 4]
   \<and> input_record [1, 0] memory 0 = record_B
   \<and> output_record py_eval scripted [hr_email] [1, 0] memory 0 = Some record_B"
proof -
  have q: "\<forall>r\<in>set [hr_email]. quiet py_eval (condition r)" by simp
  note inst = mask_data_one_to_one [OF q, of scripted "[1, 0]" memory]
  have n: "length (heap memory) = 3" by (simp add: memory_def)
  from inst have "fst (mask_data py_eval scripted [hr_email] [1, 0] memory) = Returns [3 ..< 3 + 2]"
    by (simp add: n)
  then have out: "fst (mask_data py_eval scripted [hr_email] [1, 0] memory) = Returns [3, 4]"
    by (simp only: upt_3)
  from inst have "output_record py_eval scripted [hr_email] [1, 0] memory 0
      = Some (heap (after py_eval scripted [hr_email] 3 (copied py_eval scripted [hr_email] [1, 0] memory 0)) ! 3)"
    by (simp add: n)
  also have "heap (after py_eval scripted [hr_email] 3 (copied py_eval scripted [hr_email] [1, 0] memory 0)) ! 3
      = record_B"
    by (simp add: after_def copied_def before_def mask_data_def copy_def memory_def record_B_def
          hr_email_def department_is_HR_def apply_rule_def py_compare_def)
  finally have rec: "output_record py_eval scripted [hr_email] [1, 0] memory 0 = Some record_B" .
  have "input_record [1, 0] memory 0 = record_B" by (simp add: input_record_def memory_def)
  with out rec show ?thesis by simp
qed

text \<open>
  Claim C1 as stated, for every rule set: with the rule whose condition is \<^verbatim>\<open>exit()\<close>,
  \<^verbatim>\<open>mask_data\<close> on three records returns no list; \<^verbatim>\<open>SystemExit\<close> passes both handlers
  of the loop body and leaves the function.
\<close>

theorem mask_data_returns_no_list:
  "fst (mask_data py_eval scripted [exit_rule] [0, 1, 2] memory) = Raises SystemExit"
  by (simp add: mask_data_def copy_def memory_def exit_rule_def apply_rule_def has_key_def record_A_def)

text \<open>
  Claim C10, amended. When the conditions of the rule set are quiet, every value written
  by masking is a string, whatever the type of the value it replaces: when a rule of the
  rule set masks field \<open>f\<close> of the working copy of the \<open>i\<close>-th record, its condition true
  and \<open>f\<close> present when its turn comes, the \<open>i\<close>-th output record holds a string at \<open>f\<close>.
\<close>

theorem masked_values_are_strings:
  assumes "\<forall>r\<in>set config. quiet ev (condition r)" and "i < length data"
    and "c = working_copy ev fake config data s i" and "t = copied ev fake config data s i"
    and "config = pre @ r # post"
    and "masks ev r c (after ev fake pre c t) f"
  shows "\<exists>rec v. output_record ev fake config data s i = Some rec \<and> map_of rec f = Some (VStr v)"
proof -
  let ?t' = "after ev fake pre c t"
  let ?t'' = "snd (apply_rule ev fake r c ?t')"
  from assms(1,5) have qpre: "\<forall>r\<in>set pre. quiet ev (condition r)" and q: "quiet ev (condition r)"
    and qpost: "\<forall>r\<in>set post. quiet ev (condition r)" and qall: "\<forall>r\<in>set (pre @ r # post). quiet ev (condition r)"
    by simp_all
  have "c < length (heap t)" unfolding assms(3,4) by (rule working_copy_valid)
  then have len': "c < length (heap ?t')" using after_frame(1) [OF qpre, of fake c t] by simp
  then have len'': "c < length (heap ?t'')" using apply_rule_frame(1) [OF q, of fake c ?t'] by simp
  have "map_of (heap ?t'' ! c) f = Some (VStr (generated ev fake r c ?t'))"
    using apply_rule_lookup [OF q len', of fake f] assms(6) by simp
  then have "\<exists>v. map_of (heap ?t'' ! c) f = Some (VStr v)" ..
  with qpost len'' have "\<exists>v. map_of (heap (after ev fake post c ?t'') ! c) f = Some (VStr v)"
    by (rule after_string)
  then have "\<exists>v. map_of (heap (after ev fake config c t) ! c) f = Some (VStr v)"
    unfolding assms(5) by (simp only: after_split [OF qall])
  moreover have "output_record ev fake config data s i = Some (heap (after ev fake config c t) ! c)"
    unfolding assms(3,4) using assms(1,2) by (rule output_record_run)
  ultimately show ?thesis by blast
qed

theorem masked_values_are_strings_witness:
  "input_record [2] archive 0 = record_C
   \<and> map_of record_C ''age'' = Some (VInt 70)
   \<and> output_record py_eval scripted [over_60_age] [2] archive 0
       = Some [(''name'', VStr ''C''), (''age'', VStr ''1999-12-31''), (''email'', VStr ''c@x.com'')]"
proof -
  have q: "\<forall>r\<in>set [over_60_age]. quiet py_eval (condition r)" by simp
  have m: "masks py_eval over_60_age (working_copy py_eval scripted [over_60_age] [2] archive 0)
             (after py_eval scripted [] (working_copy py_eval scripted [over_60_age] [2] archive 0)
                (copied py_eval scripted [over_60_age] [2] archive 0)) ''age''"
    by (simp add: masks_def working_copy_def copied_def before_def mask_data_def copy_def
          archive_def memory_def record_C_def over_60_age_def over_60_def py_compare_def cmp_int_def
          has_key_def)
  from masked_values_are_strings [where config = "[over_60_age]" and ev = py_eval and i = 0
      and data = "[2]" and fake = scripted and s = archive and pre = "[]" and r = over_60_age
      and post = "[]" and f = "''age''", OF q _ refl refl _ m]
  obtain rec v where rec: "output_record py_eval scripted [over_60_age] [2] archive 0 = Some rec"
    and "map_of rec ''age'' = Some (VStr v)"
    by auto
  have "output_record py_eval scripted [over_60_age] [2] archive 0
       = Some [(''name'', VStr ''C''), (''age'', VStr ''1999-12-31''), (''email'', VStr ''c@x.com'')]"
    by (simp add: output_record_def mask_data_def copy_def archive_def memory_def record_A_def
          record_B_def record_C_def over_60_age_def over_60_def apply_rule_def apply_masking_def
          call_provider_def logging_def has_key_def py_compare_def cmp_int_def)
  moreover have "input_record [2] archive 0 = record_C" by (simp add: input_record_def archive_def memory_def)
  ultimately show ?thesis by (simp add: record_C_def)
qed

text \<open>
  Claim C10 as stated, at the rule set of \<open>hr_email\<close> followed by a rule with the
  condition \<^verbatim>\<open>(email := 42) == 42\<close>: the first rule finds its condition true and
  \<^verbatim>\<open>email\<close> present and masks it, the second one's condition assigns to \<^verbatim>\<open>email\<close>, and
  the output record holds the integer 42 there.
\<close>

theorem masked_value_is_no_string:
  "masks py_eval hr_email 3 (copied py_eval scripted [hr_email, assign_email] [0] memory 0) ''email''
   \<and> output_record py_eval scripted [hr_email, assign_email] [0] memory 0
       = Some [(''name'', VStr ''A''), (''department'', VStr ''HR''), (''email'', VInt 42)]"
  by (simp add: masks_def copied_def before_def output_record_def mask_data_def copy_def memory_def
        record_A_def record_B_def record_C_def hr_email_def assign_email_def department_is_HR_def
        apply_rule_def apply_masking_def call_provider_def logging_def has_key_def py_compare_def)

text \<open>
  Claim C4, amended. When the conditions of the rule set are quiet and two rules mask the
  same field \<open>f\<close> of the working copy of the \<open>i\<close>-th record, each finding its condition
  true and \<open>f\<close> present when its turn comes, and no rule after the second masks \<open>f\<close>,
  the \<open>i\<close>-th output record holds at \<open>f\<close> the value generated for the second one.
\<close>

theorem later_rule_wins:
  assumes "\<forall>r\<in>set config. quiet ev (condition r)" and "i < length data"
    and "c = working_copy ev fake config data s i" and "t = copied ev fake config data s i"
    and "config = pre @ r1 # mid @ r2 # post"
    and "masks ev r1 c (after ev fake pre c t) f"
    and "masks ev r2 c (after ev fake (pre @ r1 # mid) c t) f"
    and "\<forall>p r q. post = p @ r # q \<longrightarrow> \<not> masks ev r c (after ev fake (pre @ r1 # mid @ r2 # p) c t) f"
  shows "\<exists>rec. output_record ev fake config data s i = Some rec
             \<and> map_of rec f = Some (VStr (generated ev fake r2 c (after ev fake (pre @ r1 # mid) c t)))"
proof -
  let ?front = "pre @ r1 # mid"
  let ?t' = "after ev fake ?front c t"
  let ?u = "after ev fake (?front @ [r2]) c t"
  from assms(1) have qa: "\<forall>r\<in>set (pre @ r1 # mid @ r2 # post). quiet ev (condition r)"
    unfolding assms(5) .
  then have qf: "\<forall>r\<in>set ?front. quiet ev (condition r)" by auto
  from qa have q2: "quiet ev (condition r2)" by auto
  from qa have qpost: "\<forall>r\<in>set post. quiet ev (condition r)" by auto
  from qa have qf2: "\<forall>r\<in>set (?front @ [r2]). quiet ev (condition r)" by auto
  have "c < length (heap t)" unfolding assms(3,4) by (rule working_copy_valid)
  then have len': "c < length (heap ?t')" using after_frame(1) [OF qf, of fake c t] by simp
  have u: "?u = snd (apply_rule ev fake r2 c ?t')" using qf by (rule after_snoc)
  have lenu: "c < length (heap ?u)"
    unfolding u using apply_rule_frame(1) [OF q2, of fake c ?t'] len' by simp
  have one: "map_of (heap ?u ! c) f = Some (VStr (generated ev fake r2 c ?t'))"
    unfolding u using apply_rule_lookup [OF q2 len', of fake f] assms(7) by simp
  have "\<forall>p r q. post = p @ r # q \<longrightarrow> \<not> masks ev r c (after ev fake p c ?u) f"
  proof (intro allI impI)
    fix p r q
    assume "post = p @ r # q"
    then have "\<not> masks ev r c (after ev fake (pre @ r1 # mid @ r2 # p) c t) f"
      by (rule assms(8) [rule_format])
    moreover have "after ev fake ((?front @ [r2]) @ p) c t = after ev fake p c ?u"
      using qf2 by (rule after_append)
    ultimately show "\<not> masks ev r c (after ev fake p c ?u) f" by simp
  qed
  with qpost lenu have "map_of (heap (after ev fake post c ?u) ! c) f = map_of (heap ?u ! c) f"
    by (rule after_unmasked)
  moreover have "after ev fake ((?front @ [r2]) @ post) c t = after ev fake post c ?u"
    using qf2 by (rule after_append)
  then have "after ev fake config c t = after ev fake post c ?u"
    unfolding assms(5) by simp
  moreover have "output_record ev fake config data s i = Some (heap (after ev fake config c t) ! c)"
    unfolding assms(3,4) using assms(1,2) by (rule output_record_run)
  ultimately show ?thesis using one by simp
qed

theorem later_rule_wins_witness:
  "generated py_eval scripted hr_email 3 (copied py_eval scripted [hr_email, hr_email_text, sales_email] [0] memory 0)
     = ''u1@example.org''
   \<and> generated py_eval scripted hr_email_text 3
       (after py_eval scripted [hr_email] 3 (copied py_eval scripted [hr_email, hr_email_text, sales_email] [0] memory 0))
     = ''u2@example.org''
   \<and> output_record py_eval scripted [hr_email, hr_email_text, sales_email] [0] memory 0
       = Some [(''name'', VStr ''A''), (''department'', VStr ''HR''), (''email'', VStr ''u2@example.org'')]"
proof -
  let ?cfg = "[hr_email, hr_email_text, sales_email]"
  let ?t = "copied py_eval scripted ?cfg [0] memory 0"
  have q: "\<forall>r\<in>set ?cfg. quiet py_eval (condition r)"
    by (simp add: sales_email_def reads_only_quiet)
  have c: "working_copy py_eval scripted ?cfg [0] memory 0 = 3"
    by (simp add: working_copy_def before_def mask_data_def memory_def)
  have t: "?t = memory\<lparr>heap := [record_A, record_B, record_C, record_A]\<rparr>"
    by (simp add: copied_def before_def mask_data_def copy_def memory_def)
  have t1: "after py_eval scripted ([] @ hr_email # []) 3 ?t
      = memory\<lparr>heap := [record_A, record_B, record_C,
                   [(''name'', VStr ''A''), (''department'', VStr ''HR''), (''email'', VStr ''u1@example.org'')]],
                gen := [''u2@example.org'']\<rparr>"
    unfolding t
    by (simp add: after_def memory_def record_A_def hr_email_def department_is_HR_def apply_rule_def
          apply_masking_def call_provider_def has_key_def py_compare_def)
  have t2: "after py_eval scripted ([] @ hr_email # [] @ hr_email_text # []) 3 ?t
      = memory\<lparr>heap := [record_A, record_B, record_C,
                   [(''name'', VStr ''A''), (''department'', VStr ''HR''), (''email'', VStr ''u2@example.org'')]],
                gen := []\<rparr>"
    unfolding t
    by (simp add: after_def memory_def record_A_def hr_email_def hr_email_text_def department_is_HR_def
          apply_rule_def apply_masking_def call_provider_def has_key_def py_compare_def)
  have m1: "masks py_eval hr_email 3 (after py_eval scripted [] 3 ?t) ''email''"
    unfolding t by (simp add: masks_def hr_email_def department_is_HR_def record_A_def py_compare_def has_key_def)
  have m2: "masks py_eval hr_email_text 3 (after py_eval scripted ([] @ hr_email # []) 3 ?t) ''email''"
    unfolding t1 by (simp add: masks_def hr_email_text_def department_is_HR_def py_compare_def has_key_def)
  have m3: "\<forall>p r q. [sales_email] = p @ r # q \<longrightarrow>
      \<not> masks py_eval r 3 (after py_eval scripted ([] @ hr_email # [] @ hr_email_text # p) 3 ?t) ''email''"
  proof (intro allI impI)
    fix p r q
    assume "[sales_email] = p @ r # q"
    then have p: "p = []" and r: "r = sales_email" by (simp_all add: Cons_eq_append_conv)
    have "\<not> masks py_eval sales_email 3 (after py_eval scripted ([] @ hr_email # [] @ hr_email_text # []) 3 ?t) ''email''"
      unfolding t2 by (simp add: masks_def sales_email_def py_compare_def)
    with p r show "\<not> masks py_eval r 3 (after py_eval scripted ([] @ hr_email # [] @ hr_email_text # p) 3 ?t) ''email''"
      by simp
  qed
  from later_rule_wins [where config = ?cfg and ev = py_eval and i = 0 and data = "[0]"
      and fake = scripted and s = memory and pre = "[]" and ?r1.0 = hr_email and mid = "[]"
      and ?r2.0 = hr_email_text and post = "[sales_email]" and f = "''email''" and c = 3 and t = ?t,
      OF q _ c [symmetric] refl _ m1 m2 m3]
  obtain rec where rec: "output_record py_eval scripted ?cfg [0] memory 0 = Some rec"
    and email: "map_of rec ''email''
      = Some (VStr (generated py_eval scripted hr_email_text 3 (after py_eval scripted ([] @ hr_email # []) 3 ?t)))"
    by auto
  have g1: "generated py_eval scripted hr_email 3 ?t = ''u1@example.org''"
    unfolding t
    by (simp add: generated_def hr_email_def department_is_HR_def record_A_def py_compare_def memory_def
          apply_masking_def call_provider_def)
  have g2: "generated py_eval scripted hr_email_text 3 (after py_eval scripted ([] @ hr_email # []) 3 ?t)
      = ''u2@example.org''"
    unfolding t1
    by (simp add: generated_def hr_email_text_def department_is_HR_def py_compare_def memory_def
          apply_masking_def call_provider_def)
  have out: "output_record py_eval scripted ?cfg [0] memory 0
       = Some [(''name'', VStr ''A''), (''department'', VStr ''HR''), (''email'', VStr ''u2@example.org'')]"
    by (simp add: output_record_def mask_data_def copy_def memory_def record_A_def record_B_def
          record_C_def hr_email_def hr_email_text_def sales_email_def department_is_HR_def apply_rule_def
          apply_masking_def call_provider_def logging_def has_key_def py_compare_def)
  from rec email g1 g2 out show ?thesis by simp
qed

text \<open>
  Claim C4 as stated, at the rule set of \<open>hr_email\<close> and \<open>hr_email_text\<close> followed by a
  rule with the condition \<^verbatim>\<open>(email := 42) == 42\<close>: both rules mask \<^verbatim>\<open>email\<close>, and the
  output record holds there the integer 42, not the value generated for the later one.
\<close>

theorem later_rule_loses:
  "masks py_eval hr_email 3 (copied py_eval scripted [hr_email, hr_email_text, assign_email] [0] memory 0) ''email''
   \<and> masks py_eval hr_email_text 3
       (after py_eval scripted [hr_email] 3
          (copied py_eval scripted [hr_email, hr_email_text, assign_email] [0] memory 0)) ''email''
   \<and> output_record py_eval scripted [hr_email, hr_email_text, assign_email] [0] memory 0
       = Some [(''name'', VStr ''A''), (''department'', VStr ''HR''), (''email'', VInt 42)]"
  by (simp add: masks_def after_def copied_def before_def output_record_def mask_data_def copy_def
        memory_def record_A_def record_B_def record_C_def hr_email_def hr_email_text_def assign_email_def
        department_is_HR_def apply_rule_def apply_masking_def call_provider_def logging_def has_key_def
        py_compare_def)

text \<open>
  Claim C5. A rule's condition is evaluated against the current working copy of the
  record: with the working copy of the \<open>i\<close>-th record as local names, in the memory as
  the rules before it have left it, their substitutions made. What rule \<open>r\<close> does to the
  objects, once the rules \<open>pre\<close> have run, is so decided by \<open>ev (condition r) c\<close> in that
  memory: if it masks a field, the working copy, as the evaluation left it, gets the
  generated value there; if it masks none, the objects are as the evaluation left them.
  When the conditions of the rule set are quiet, the \<open>i\<close>-th output record is the working
  copy as the last rule leaves it.
\<close>

theorem condition_sees_working_copy:
  assumes "i < length data"
    and "c = working_copy ev fake config data s i" and "t = copied ev fake config data s i"
    and "config = pre @ r # post"
    and "fst (apply_rules ev fake pre c t) = None"
  shows "(\<forall>f. masks ev r c (after ev fake pre c t) f \<longrightarrow>
            heap (after ev fake (pre @ [r]) c t)
              = (heap (snd (ev (condition r) c (after ev fake pre c t))))[c :=
                   AList.update f (VStr (generated ev fake r c (after ev fake pre c t)))
                     (heap (snd (ev (condition r) c (after ev fake pre c t))) ! c)])
       \<and> ((\<forall>f. \<not> masks ev r c (after ev fake pre c t) f) \<longrightarrow>
            heap (after ev fake (pre @ [r]) c t) = heap (snd (ev (condition r) c (after ev fake pre c t))))
       \<and> ((\<forall>r\<in>set config. quiet ev (condition r)) \<longrightarrow>
            output_record ev fake config data s i = Some (heap (after ev fake config c t) ! c))"
proof (intro conjI allI impI)
  have step: "after ev fake (pre @ [r]) c t = snd (apply_rule ev fake r c (after ev fake pre c t))"
    using apply_rules_snoc [OF assms(5), of r] by (simp add: after_def)
  {
    fix f
    assume "masks ev r c (after ev fake pre c t) f"
    then show "heap (after ev fake (pre @ [r]) c t)
              = (heap (snd (ev (condition r) c (after ev fake pre c t))))[c :=
                   AList.update f (VStr (generated ev fake r c (after ev fake pre c t)))
                     (heap (snd (ev (condition r) c (after ev fake pre c t))) ! c)]"
      unfolding step by (rule apply_rule_masks_heap)
  }
  {
    assume "\<forall>f. \<not> masks ev r c (after ev fake pre c t) f"
    then show "heap (after ev fake (pre @ [r]) c t) = heap (snd (ev (condition r) c (after ev fake pre c t)))"
      unfolding step by (rule apply_rule_idle_heap)
  }
  {
    assume "\<forall>r\<in>set config. quiet ev (condition r)"
    then show "output_record ev fake config data s i = Some (heap (after ev fake config c t) ! c)"
      unfolding assms(2,3) using assms(1) by (rule output_record_run)
  }
qed

theorem condition_sees_working_copy_witness:
  "masks py_eval hr_email 0 office ''email''
   \<and> heap (after py_eval scripted [hr_department] 3 (copied py_eval scripted [hr_department, hr_email] [0] office 0)) ! 3
       = [(''name'', VStr ''A''), (''department'', VStr ''Acme Ltd''), (''email'', VStr ''a@x.com'')]
   \<and> \<not> masks py_eval hr_email 3
         (after py_eval scripted [hr_department] 3 (copied py_eval scripted [hr_department, hr_email] [0] office 0))
         ''email''
   \<and> output_record py_eval scripted [hr_department, hr_email] [0] office 0
       = Some [(''name'', VStr ''A''), (''department'', VStr ''Acme Ltd''), (''email'', VStr ''a@x.com'')]"
proof -
  let ?cfg = "[hr_department, hr_email]"
  let ?t = "copied py_eval scripted ?cfg [0] office 0"
  have q: "\<forall>r\<in>set ?cfg. quiet py_eval (condition r)" by simp
  have c: "working_copy py_eval scripted ?cfg [0] office 0 = 3"
    by (simp add: working_copy_def before_def mask_data_def office_def memory_def)
  have t: "?t = office\<lparr>heap := [record_A, record_B, record_C, record_A]\<rparr>"
    by (simp add: copied_def before_def mask_data_def copy_def office_def memory_def)
  have t1: "after py_eval scripted [hr_department] 3 ?t
      = office\<lparr>heap := [record_A, record_B, record_C,
                   [(''name'', VStr ''A''), (''department'', VStr ''Acme Ltd''), (''email'', VStr ''a@x.com'')]],
                gen := [''Jane Doe'', ''1999-12-31'']\<rparr>"
    unfolding t
    by (simp add: after_def office_def memory_def record_A_def hr_department_def department_is_HR_def
          apply_rule_def apply_masking_def call_provider_def has_key_def py_compare_def)
  have ran: "fst (apply_rules py_eval scripted [hr_department] 3 ?t) = None"
    using apply_rules_returns [of "[hr_department]" py_eval scripted 3 ?t] by simp
  have ev: "py_eval (condition hr_email) 3 (after py_eval scripted [hr_department] 3 ?t)
      = (Returns (VBool False), after py_eval scripted [hr_department] 3 ?t)"
    unfolding t1 by (simp add: hr_email_def department_is_HR_def office_def memory_def py_compare_def)
  then have idle: "\<forall>f. \<not> masks py_eval hr_email 3 (after py_eval scripted [hr_department] 3 ?t) f"
    by (simp add: masks_def)
  note inst = condition_sees_working_copy [where i = 0 and data = "[0]" and c = 3 and ev = py_eval
      and fake = scripted and config = ?cfg and s = office and t = ?t and pre = "[hr_department]"
      and r = hr_email and post = "[]", OF _ c [symmetric] refl _ ran]
  from inst idle ev have same: "heap (after py_eval scripted ([hr_department] @ [hr_email]) 3 ?t)
      = heap (after py_eval scripted [hr_department] 3 ?t)"
    by simp
  from inst q have "output_record py_eval scripted ?cfg [0] office 0
      = Some (heap (after py_eval scripted ?cfg 3 ?t) ! 3)"
    by simp
  with same have out: "output_record py_eval scripted ?cfg [0] office 0
      = Some (heap (after py_eval scripted [hr_department] 3 ?t) ! 3)"
    by simp
  have cur: "heap (after py_eval scripted [hr_department] 3 ?t) ! 3
       = [(''name'', VStr ''A''), (''department'', VStr ''Acme Ltd''), (''email'', VStr ''a@x.com'')]"
    unfolding t1 by simp
  have orig: "masks py_eval hr_email 0 office ''email''"
    by (simp add: masks_def hr_email_def department_is_HR_def office_def memory_def record_A_def
          py_compare_def has_key_def)
  from orig cur idle out show ?thesis by simp
qed




text \<open>
  Claim C3, amended. When the conditions of the rule set are quiet and the condition of
  rule \<open>r\<close> raises on the working copy of the \<open>i\<close>-th record, the rule is skipped for that
  record: it does nothing but log an error, so the objects are as they were; the rules
  after it are then applied to the working copy; the \<open>i\<close>-th output record is the working
  copy as the last rule leaves it; and the run goes on to the end of the input,
  \<^verbatim>\<open>mask_data\<close> returning one record for each record of the input.
\<close>

theorem failing_condition_skips_rule:
  assumes "\<forall>r\<in>set config. quiet ev (condition r)" and "i < length data"
    and "c = working_copy ev fake config data s i" and "t = copied ev fake config data s i"
    and "config = pre @ r # post"
    and "fst (ev (condition r) c (after ev fake pre c t)) = Raises e"
  shows "(\<exists>m. after ev fake (pre @ [r]) c t = logging ERROR m (after ev fake pre c t))
       \<and> heap (after ev fake (pre @ [r]) c t) = heap (after ev fake pre c t)
       \<and> after ev fake config c t = after ev fake post c (after ev fake (pre @ [r]) c t)
       \<and> output_record ev fake config data s i = Some (heap (after ev fake config c t) ! c)
       \<and> fst (mask_data ev fake config data s)
           = Returns [length (heap s) ..< length (heap s) + length data]"
proof -
  from assms(1) have qa: "\<forall>r\<in>set (pre @ r # post). quiet ev (condition r)" unfolding assms(5) .
  then have qpre: "\<forall>r\<in>set pre. quiet ev (condition r)" by auto
  from qa have q: "quiet ev (condition r)" by auto
  from qa have qpr: "\<forall>r\<in>set (pre @ [r]). quiet ev (condition r)" by auto
  from apply_rule_raises [OF q assms(6), of fake]
  obtain m where m: "apply_rule ev fake r c (after ev fake pre c t) = (None, logging ERROR m (after ev fake pre c t))"
    by blast
  then have step: "after ev fake (pre @ [r]) c t = logging ERROR m (after ev fake pre c t)"
    by (simp add: after_snoc qpre)
  then have one: "\<exists>m. after ev fake (pre @ [r]) c t = logging ERROR m (after ev fake pre c t)" ..
  from step have two: "heap (after ev fake (pre @ [r]) c t) = heap (after ev fake pre c t)" by simp
  have "after ev fake ((pre @ [r]) @ post) c t = after ev fake post c (after ev fake (pre @ [r]) c t)"
    using qpr by (rule after_append)
  then have three: "after ev fake config c t = after ev fake post c (after ev fake (pre @ [r]) c t)"
    unfolding assms(5) by simp
  have four: "output_record ev fake config data s i = Some (heap (after ev fake config c t) ! c)"
    unfolding assms(3,4) using assms(1,2) by (rule output_record_run)
  have five: "fst (mask_data ev fake config data s)
           = Returns [length (heap s) ..< length (heap s) + length data]"
    using mask_loop_quiet [OF assms(1), where fake = fake and data = data and acc = "[]" and s = s]
    by (simp add: mask_data_def)
  from one two three four five show ?thesis by (intro conjI)
qed

theorem failing_condition_skips_rule_witness:
  "fst (py_eval (condition hr_email) 3 (copied py_eval scripted [hr_email, over_60_name] [2] staff 0))
     = Raises NameError
   \<and> logs (after py_eval scripted [hr_email] 3 (copied py_eval scripted [hr_email, over_60_name] [2] staff 0))
       = [(ERROR, ''Error in condition evaluation.  Invalid variable used: {e}'')]
   \<and> fst (mask_data py_eval scripted [hr_email, over_60_name] [2] staff) = Returns [3]
   \<and> output_record py_eval scripted [hr_email, over_60_name] [2] staff 0
       = Some [(''name'', VStr ''Jane Doe''), (''age'', VInt 70), (''email'', VStr ''c@x.com'')]"
proof -
  let ?cfg = "[hr_email, over_60_name]"
  let ?t = "copied py_eval scripted ?cfg [2] staff 0"
  have q: "\<forall>r\<in>set ?cfg. quiet py_eval (condition r)" by simp
  have c: "working_copy py_eval scripted ?cfg [2] staff 0 = 3"
    by (simp add: working_copy_def before_def mask_data_def staff_def memory_def)
  have t: "?t = staff\<lparr>heap := [record_A, record_B, record_C, record_C]\<rparr>"
    by (simp add: copied_def before_def mask_data_def copy_def staff_def memory_def)
  have raises: "fst (py_eval (condition hr_email) 3 (after py_eval scripted [] 3 ?t)) = Raises NameError"
    unfolding t by (simp add: hr_email_def department_is_HR_def record_C_def)
  note inst = failing_condition_skips_rule [where config = ?cfg and ev = py_eval and i = 0
      and data = "[2]" and fake = scripted and s = staff and c = 3 and t = ?t and pre = "[]"
      and r = hr_email and post = "[over_60_name]" and e = NameError,
      OF q _ c [symmetric] refl _ raises]
  from inst have out: "output_record py_eval scripted ?cfg [2] staff 0
      = Some (heap (after py_eval scripted ?cfg 3 ?t) ! 3)"
    by simp
  from inst have ret: "fst (mask_data py_eval scripted ?cfg [2] staff) = Returns [length (heap staff) ..< length (heap staff) + 1]"
    by simp
  have "[length (heap staff) ..< length (heap staff) + 1] = [3]"
    by (simp add: staff_def memory_def)
  with ret have ret': "fst (mask_data py_eval scripted ?cfg [2] staff) = Returns [3]" by simp
  have log: "logs (after py_eval scripted [hr_email] 3 ?t)
       = [(ERROR, ''Error in condition evaluation.  Invalid variable used: {e}'')]"
    unfolding t
    by (simp add: after_def staff_def memory_def record_C_def hr_email_def department_is_HR_def
          apply_rule_def logging_def)
  have "heap (after py_eval scripted ?cfg 3 ?t) ! 3
       = [(''name'', VStr ''Jane Doe''), (''age'', VInt 70), (''email'', VStr ''c@x.com'')]"
    unfolding t
    by (simp add: after_def staff_def memory_def record_C_def hr_email_def over_60_name_def
          department_is_HR_def over_60_def apply_rule_def apply_masking_def call_provider_def
          logging_def has_key_def py_compare_def cmp_int_def)
  with out have out': "output_record py_eval scripted ?cfg [2] staff 0
       = Some [(''name'', VStr ''Jane Doe''), (''age'', VInt 70), (''email'', VStr ''c@x.com'')]"
    by simp
  from raises log ret' out' show ?thesis by simp
qed

text \<open>
  Claim C3 as stated, at the rule with the condition
  \<^verbatim>\<open>(email := 42) == 42 and nosuch\<close>: the evaluation fails on the unresolved name
  \<^verbatim>\<open>nosuch\<close>, after it has assigned to \<^verbatim>\<open>email\<close>, and the output record holds the
  integer 42 there: the rule whose condition failed has changed the record.
\<close>

theorem failing_condition_changes_record:
  "fst (py_eval (condition assign_then_fail) 3 (copied py_eval scripted [assign_then_fail] [0] memory 0))
     = Raises NameError
   \<and> input_record [0] memory 0
       = [(''name'', VStr ''A''), (''department'', VStr ''HR''), (''email'', VStr ''a@x.com'')]
   \<and> output_record py_eval scripted [assign_then_fail] [0] memory 0
       = Some [(''name'', VStr ''A''), (''department'', VStr ''HR''), (''email'', VInt 42)]"
  by (simp add: input_record_def copied_def before_def output_record_def mask_data_def copy_def
        memory_def record_A_def record_B_def record_C_def assign_then_fail_def apply_rule_def
        logging_def py_compare_def)

text \<open>
  Claim C7. Loading the rule set is all or nothing. When the configuration file is
  missing, cannot be opened, holds no JSON text, holds a value that is not a list, or
  holds a list with an element that is not a rule, \<^verbatim>\<open>load_config\<close> returns \<^verbatim>\<open>None\<close> and
  not a part of the list, and logs one error; \<^verbatim>\<open>process_data\<close> then logs one more error
  and returns, and nothing else has changed: no value is generated and no file written.
  When every element of the list is a rule, the rule set is the whole list.
\<close>

theorem load_all_or_nothing:
  "(map_of (files s) config_file = None
    \<or> map_of (files s) config_file = Some Unreadable
    \<or> map_of (files s) config_file = Some Malformed
    \<or> (\<exists>j. map_of (files s) config_file = Some (Holds j) \<and> (\<forall>rules. j \<noteq> JList rules))
    \<or> (\<exists>rules. map_of (files s) config_file = Some (Holds (JList rules)) \<and> (\<exists>j\<in>set rules. \<not> valid_rule j))
    \<longrightarrow> fst (load_config config_file s) = None
        \<and> (\<exists>m. snd (load_config config_file s) = logging ERROR m s)
        \<and> (\<exists>m1 m2. process_data ev fake (fst (load_config config_file s)) input_file output_file
                      (snd (load_config config_file s))
                    = Some (None, logging ERROR m2 (logging ERROR m1 s))))
   \<and> (\<forall>rules. map_of (files s) config_file = Some (Holds (JList rules)) \<and> (\<forall>j\<in>set rules. valid_rule j)
        \<longrightarrow> (\<exists>config. load_config config_file s = (Some config, s)
                      \<and> map Some config = map rule_of_json rules))"
proof (intro conjI allI impI)
  assume h: "map_of (files s) config_file = None
    \<or> map_of (files s) config_file = Some Unreadable
    \<or> map_of (files s) config_file = Some Malformed
    \<or> (\<exists>j. map_of (files s) config_file = Some (Holds j) \<and> (\<forall>rules. j \<noteq> JList rules))
    \<or> (\<exists>rules. map_of (files s) config_file = Some (Holds (JList rules)) \<and> (\<exists>j\<in>set rules. \<not> valid_rule j))"
  have "\<exists>e. read_config config_file s = Inl e"
    using h
  proof (elim disjE exE conjE)
    assume "map_of (files s) config_file = None"
    then show ?thesis by (simp add: read_config_def)
  next
    assume "map_of (files s) config_file = Some Unreadable"
    then show ?thesis by (simp add: read_config_def)
  next
    assume "map_of (files s) config_file = Some Malformed"
    then show ?thesis by (simp add: read_config_def)
  next
    fix j
    assume "map_of (files s) config_file = Some (Holds j)" and "\<forall>rules. j \<noteq> JList rules"
    then show ?thesis by (cases j) (simp_all add: read_config_def)
  next
    fix rules
    assume held: "map_of (files s) config_file = Some (Holds (JList rules))"
      and "\<exists>j\<in>set rules. \<not> valid_rule j"
    then obtain m where "check_rules rules = Inl (ValueError m)"
      using check_rules_invalid by blast
    with held show ?thesis by (simp add: read_config_def)
  qed
  then have fails: "fst (load_config config_file s) = None
      \<and> (\<exists>m. snd (load_config config_file s) = logging ERROR m s)"
    by (rule load_config_fails)
  then show "fst (load_config config_file s) = None"
    and "\<exists>m. snd (load_config config_file s) = logging ERROR m s"
    by simp_all
  from fails obtain m where "fst (load_config config_file s) = None"
    and "snd (load_config config_file s) = logging ERROR m s"
    by blast
  then have "process_data ev fake (fst (load_config config_file s)) input_file output_file
                      (snd (load_config config_file s))
       = Some (None, logging ERROR ''Configuration loading failed.  Exiting.'' (logging ERROR m s))"
    by (simp add: process_data_def)
  then show "\<exists>m1 m2. process_data ev fake (fst (load_config config_file s)) input_file output_file
                      (snd (load_config config_file s))
                    = Some (None, logging ERROR m2 (logging ERROR m1 s))"
    by blast
next
  fix rules
  assume h: "map_of (files s) config_file = Some (Holds (JList rules)) \<and> (\<forall>j\<in>set rules. valid_rule j)"
  then obtain config where "check_rules rules = Inr config" and "map Some config = map rule_of_json rules"
    using check_rules_valid by blast
  with h show "\<exists>config. load_config config_file s = (Some config, s)
                      \<and> map Some config = map rule_of_json rules"
    by (simp add: load_config_def read_config_def)
qed

theorem load_all_or_nothing_witness:
  "valid_rule (JObj [(''condition'', JStr ''department == 'HR' ''), (''field'', JStr ''email''),
                     (''masking_type'', JStr ''email'')])
   \<and> load_config ''rules.json'' disk = (None, logging ERROR ''Invalid configuration: {e}'' disk)
   \<and> process_data (\<lambda>c a s. (Raises SyntaxError, s)) scripted (fst (load_config ''rules.json'' disk))
       ''in.json'' ''out.json'' (snd (load_config ''rules.json'' disk))
       = Some (None, logging ERROR ''Configuration loading failed.  Exiting.''
                 (logging ERROR ''Invalid configuration: {e}'' disk))
   \<and> fst (load_config ''missing.json'' disk) = None"
proof -
  have bad: "\<not> valid_rule (JObj [(''condition'', JStr ''True''), (''masking_type'', JStr ''name'')])"
    by (simp add: valid_rule_def)
  have good: "valid_rule (JObj [(''condition'', JStr ''department == 'HR' ''), (''field'', JStr ''email''),
                     (''masking_type'', JStr ''email'')])"
    by (simp add: valid_rule_def)
  have held: "map_of (files disk) ''rules.json''
      = Some (Holds (JList [JObj [(''condition'', JStr ''department == 'HR' ''), (''field'', JStr ''email''),
                                  (''masking_type'', JStr ''email'')],
                            JObj [(''condition'', JStr ''True''), (''masking_type'', JStr ''name'')]]))"
    by (simp add: disk_def)
  have nofile: "map_of (files disk) ''missing.json'' = None" by (simp add: disk_def)
  from load_all_or_nothing [of disk "''rules.json''" "\<lambda>c a s. (Raises SyntaxError, s)" scripted
      "''in.json''" "''out.json''"] held bad
  have "fst (load_config ''rules.json'' disk) = None" by simp
  moreover from load_all_or_nothing [of disk "''missing.json''" "\<lambda>c a s. (Raises SyntaxError, s)" scripted
      "''in.json''" "''out.json''"] nofile
  have "fst (load_config ''missing.json'' disk) = None" by simp
  moreover have "load_config ''rules.json'' disk = (None, logging ERROR ''Invalid configuration: {e}'' disk)"
    by (simp add: load_config_def read_config_def disk_def rule_of_json_def)
  ultimately show ?thesis using good by (simp add: process_data_def)
qed

text \<open>
  Claim C8, at a configuration file that holds \<^verbatim>\<open>{"rules": []}\<close>, which is no list, at
  one whose second element has no \<^verbatim>\<open>field\<close>, and at one that holds no JSON text: the load
  fails, \<^verbatim>\<open>process_data\<close> logs and returns, \<^verbatim>\<open>main\<close> returns, and the exit status is 0.
  A configuration file with another extension gives the exit status 1.
\<close>

theorem main_exits_0_when_load_fails:
  "main ev fake ''norules.json'' ''in.json'' ''out.json'' disk
     = Some (0, logging ERROR ''Configuration loading failed.  Exiting.''
                  (logging ERROR ''Invalid configuration: {e}'' disk))
   \<and> main ev fake ''rules.json'' ''in.json'' ''out.json'' disk
     = Some (0, logging ERROR ''Configuration loading failed.  Exiting.''
                  (logging ERROR ''Invalid configuration: {e}'' disk))
   \<and> main ev fake ''broken.json'' ''in.json'' ''out.json'' disk
     = Some (0, logging ERROR ''Configuration loading failed.  Exiting.''
                  (logging ERROR ''Invalid JSON in configuration file: {self.config_file}'' disk))
   \<and> main ev fake ''norules.txt'' ''in.json'' ''out.json'' disk
     = Some (1, logging ERROR ''Config file must be a JSON file.'' disk)"
  by (simp add: main_def endswith_def lower_def lower_char_def load_config_def read_config_def
        process_data_def disk_def rule_of_json_def)

end
